theory Spec2Isabelle
  imports Complex_Main "HOL-Library.Multiset"
begin

section \<open>JavaScript numbers\<close>

text \<open>
  The program computes with JavaScript numbers: the IEEE 754 doubles. A finite double is
  read as the real it denotes, and beside the finite ones there are the two infinities
  and \<open>NaN\<close>. The two zeros are one value here: the program divides by the constants 10
  and 2 only, and every other operation it applies gives equal results on both zeros.
\<close>

datatype jsnum = Fin real | PInf | NInf | NaN

text \<open>
  Every arithmetic operation gives the double nearest to the exact result, a tie going to
  the double with an even significand, and an infinity when the rounded result leaves the
  range of the doubles. \<open>fl\<close> is that rounding. \<open>rne\<close> rounds a real to the nearest integer,
  a tie to the even one. \<open>binade x\<close> is the exponent \<open>e\<close> with \<open>2^e \<le> |x| < 2^(e+1)\<close>, found
  by bisection over the steps 1024, 512, ..., 1, and not below \<open>-1022\<close>, where the
  subnormal doubles begin; the doubles around \<open>x\<close> are \<open>ulp x = 2^(e-52)\<close> apart. A decimal
  literal of the source, such as \<open>0.45\<close>, denotes \<open>fl\<close> of that decimal.
\<close>

definition rne :: "real \<Rightarrow> int" where
  "rne r = (let f = \<lfloor>r\<rfloor> in
     if r - of_int f < 1 / 2 then f
     else if 1 / 2 < r - of_int f then f + 1
     else if even f then f else f + 1)"

fun scale_down :: "nat list \<Rightarrow> real \<Rightarrow> nat" where
  "scale_down [] x = 0"
| "scale_down (s # ss) x =
     (if 2 ^ s \<le> x then s + scale_down ss (x / 2 ^ s) else scale_down ss x)"

fun scale_up :: "nat list \<Rightarrow> real \<Rightarrow> nat" where
  "scale_up [] x = 0"
| "scale_up (s # ss) x =
     (if x * 2 ^ s < 1 then s + scale_up ss (x * 2 ^ s) else scale_up ss x)"

definition steps :: "nat list" where
  "steps = [1024, 512, 256, 128, 64, 32, 16, 8, 4, 2, 1]"

definition binade :: "real \<Rightarrow> int" where
  "binade x =
     (if 1 \<le> \<bar>x\<bar> then int (scale_down steps \<bar>x\<bar>)
      else max (- 1022) (- int (Suc (scale_up steps \<bar>x\<bar>))))"

definition ulp :: "real \<Rightarrow> real" where
  "ulp x = 2 powi (binade x - 52)"

definition round_to :: "real \<Rightarrow> real \<Rightarrow> real" where
  "round_to u x = of_int (rne (x / u)) * u"

definition overflow :: "real \<Rightarrow> jsnum" where
  "overflow y = (if 2 ^ 1024 \<le> y then PInf else if y \<le> - (2 ^ 1024) then NInf else Fin y)"

definition fl :: "real \<Rightarrow> jsnum" where
  "fl x = (if x = 0 then Fin 0 else overflow (round_to (ulp x) x))"

text \<open>Negation is exact; sum, difference, product and quotient are rounded.\<close>

fun js_neg :: "jsnum \<Rightarrow> jsnum" where
  "js_neg (Fin x) = Fin (- x)"
| "js_neg PInf = NInf"
| "js_neg NInf = PInf"
| "js_neg NaN = NaN"

fun js_add :: "jsnum \<Rightarrow> jsnum \<Rightarrow> jsnum" where
  "js_add NaN y = NaN"
| "js_add x NaN = NaN"
| "js_add (Fin x) (Fin y) = fl (x + y)"
| "js_add PInf NInf = NaN"
| "js_add NInf PInf = NaN"
| "js_add PInf y = PInf"
| "js_add x PInf = PInf"
| "js_add NInf y = NInf"
| "js_add x NInf = NInf"

definition js_sub :: "jsnum \<Rightarrow> jsnum \<Rightarrow> jsnum" where
  "js_sub x y = js_add x (js_neg y)"

fun js_mul :: "jsnum \<Rightarrow> jsnum \<Rightarrow> jsnum" where
  "js_mul NaN y = NaN"
| "js_mul x NaN = NaN"
| "js_mul (Fin x) (Fin y) = fl (x * y)"
| "js_mul (Fin x) PInf = (if x = 0 then NaN else if 0 < x then PInf else NInf)"
| "js_mul (Fin x) NInf = (if x = 0 then NaN else if 0 < x then NInf else PInf)"
| "js_mul PInf (Fin y) = (if y = 0 then NaN else if 0 < y then PInf else NInf)"
| "js_mul NInf (Fin y) = (if y = 0 then NaN else if 0 < y then NInf else PInf)"
| "js_mul PInf PInf = PInf"
| "js_mul PInf NInf = NInf"
| "js_mul NInf PInf = NInf"
| "js_mul NInf NInf = PInf"

fun js_div :: "jsnum \<Rightarrow> jsnum \<Rightarrow> jsnum" where
  "js_div NaN y = NaN"
| "js_div x NaN = NaN"
| "js_div (Fin x) (Fin y) =
     (if y = 0 then (if x = 0 then NaN else if 0 < x then PInf else NInf) else fl (x / y))"
| "js_div (Fin x) PInf = Fin 0"
| "js_div (Fin x) NInf = Fin 0"
| "js_div PInf (Fin y) = (if 0 \<le> y then PInf else NInf)"
| "js_div NInf (Fin y) = (if 0 \<le> y then NInf else PInf)"
| "js_div PInf PInf = NaN"
| "js_div PInf NInf = NaN"
| "js_div NInf PInf = NaN"
| "js_div NInf NInf = NaN"

text \<open>The relational operators \<open><=\<close>, \<open>>=\<close>, \<open><\<close> and \<open>>\<close>: false as soon as an operand is \<open>NaN\<close>.\<close>

fun js_le :: "jsnum \<Rightarrow> jsnum \<Rightarrow> bool" where
  "js_le NaN y = False"
| "js_le x NaN = False"
| "js_le (Fin x) (Fin y) = (x \<le> y)"
| "js_le NInf y = True"
| "js_le x PInf = True"
| "js_le x y = False"

fun js_lt :: "jsnum \<Rightarrow> jsnum \<Rightarrow> bool" where
  "js_lt NaN y = False"
| "js_lt x NaN = False"
| "js_lt (Fin x) (Fin y) = (x < y)"
| "js_lt PInf y = False"
| "js_lt x NInf = False"
| "js_lt x y = True"

definition js_ge :: "jsnum \<Rightarrow> jsnum \<Rightarrow> bool" where
  "js_ge x y = js_le y x"

definition js_gt :: "jsnum \<Rightarrow> jsnum \<Rightarrow> bool" where
  "js_gt x y = js_lt y x"

text \<open>\<open>Math.abs\<close>, \<open>Math.min\<close> (\<open>NaN\<close> as soon as an argument is) and \<open>Math.round\<close>, which
  rounds to the nearest integer and a tie toward plus infinity. The three are exact: the
  integer nearest to a double is a double.\<close>

fun Math_abs :: "jsnum \<Rightarrow> jsnum" where
  "Math_abs (Fin x) = Fin \<bar>x\<bar>"
| "Math_abs PInf = PInf"
| "Math_abs NInf = PInf"
| "Math_abs NaN = NaN"

definition Math_min :: "jsnum \<Rightarrow> jsnum \<Rightarrow> jsnum" where
  "Math_min x y = (if x = NaN \<or> y = NaN then NaN else if js_le x y then x else y)"

fun Math_round :: "jsnum \<Rightarrow> jsnum" where
  "Math_round (Fin x) = Fin (of_int \<lfloor>x + 1 / 2\<rfloor>)"
| "Math_round PInf = PInf"
| "Math_round NInf = NInf"
| "Math_round NaN = NaN"

section \<open>Data model\<close>

datatype Ability = beginner | intermediate | advanced

datatype WaveType = small_beach | mellow_point | punchy_reef | overhead

text \<open>The two enumerations are string literal types: at run time a value is its string.\<close>

fun ability_str :: "Ability \<Rightarrow> string" where
  "ability_str beginner = ''beginner''"
| "ability_str intermediate = ''intermediate''"
| "ability_str advanced = ''advanced''"

fun wave_str :: "WaveType \<Rightarrow> string" where
  "wave_str small_beach = ''small_beach''"
| "wave_str mellow_point = ''mellow_point''"
| "wave_str punchy_reef = ''punchy_reef''"
| "wave_str overhead = ''overhead''"

text \<open>
  The interface \<open>Board\<close>. The fields \<open>id\<close> and \<open>length\<close> are \<open>board_id\<close> and \<open>board_length\<close>
  here. \<open>waveTypes\<close> and \<open>abilities\<close> hold strings: the CSV ingestion casts whatever the
  cell holds. The optional \<open>sponsored\<close> is \<open>None\<close> when the property is absent.
\<close>

record Board =
  board_id :: string
  shaper :: string
  model :: string
  waveTypes :: "string list"
  abilities :: "string list"
  recommendedWeight :: "jsnum \<times> jsnum"
  board_length :: string
  volume :: jsnum
  tail :: string
  fins :: string
  construction :: string
  img :: string
  sponsored :: "bool option"

text \<open>A board with its score: the object \<open>{...b, _score: s}\<close>.\<close>

record ScoredBoard = Board +
  score :: jsnum

definition with_score :: "Board \<Rightarrow> jsnum \<Rightarrow> ScoredBoard" where
  "with_score b s = Board.extend b (ScoredBoard.fields s)"

text \<open>The truth value of \<open>b.sponsored\<close> in a condition, and \<open>Number(!!x)\<close>.\<close>

definition truthy :: "bool option \<Rightarrow> bool" where
  "truthy x = (x = Some True)"

definition Number_of_bool :: "bool \<Rightarrow> jsnum" where
  "Number_of_bool x = (if x then Fin 1 else Fin 0)"

section \<open>Volume heuristic and score\<close>

definition round1 :: "jsnum \<Rightarrow> jsnum" where
  "round1 n = js_div (Math_round (js_mul n (Fin 10))) (Fin 10)"

fun mult :: "Ability \<Rightarrow> jsnum \<times> jsnum" where
  "mult beginner = (fl 0.45, fl 0.55)"
| "mult intermediate = (fl 0.38, fl 0.47)"
| "mult advanced = (fl 0.3, fl 0.4)"

definition heuristicVolume :: "jsnum \<Rightarrow> Ability \<Rightarrow> jsnum \<times> jsnum" where
  "heuristicVolume weightKg ability =
     (case mult ability of
        (a, b) \<Rightarrow> (round1 (js_mul weightKg a), round1 (js_mul weightKg b)))"

definition scoreBoard :: "'a Board_scheme \<Rightarrow> jsnum \<Rightarrow> WaveType \<Rightarrow> Ability \<Rightarrow> jsnum" where
  "scoreBoard b weight wave ability =
     (case heuristicVolume weight ability of
        (minV, maxV) \<Rightarrow>
          let targetV = js_div (js_add minV maxV) (Fin 2);
              volDiff = Math_abs (js_sub (volume b) targetV);
              s0 = js_sub (Fin 100) (js_mul (Math_min volDiff (Fin 40)) (Fin 1.5));
              s1 = (if wave_str wave \<in> set (waveTypes b) then js_add s0 (Fin 10) else s0);
              s2 = (if ability_str ability \<in> set (abilities b) then js_add s1 (Fin 8) else s1)
          in (case recommendedWeight b of
                (wMin, wMax) \<Rightarrow>
                  let s3 = (if js_ge weight wMin \<and> js_le weight wMax
                            then js_add s2 (Fin 6) else js_sub s2 (Fin 6));
                      s4 = (if truthy (sponsored b) then js_add s3 (Fin 3) else s3)
                  in s4))"

text \<open>
  The heuristic as the specification words it: the decimal fractions, the exact products,
  each rounded to one decimal place, a tie away from zero; the result is the double that
  denotes the rounded decimal.
\<close>

fun spec_mult :: "Ability \<Rightarrow> real \<times> real" where
  "spec_mult beginner = (0.45, 0.55)"
| "spec_mult intermediate = (0.38, 0.47)"
| "spec_mult advanced = (0.3, 0.4)"

definition round_half_away :: "real \<Rightarrow> real" where
  "round_half_away x = sgn x * of_int \<lfloor>\<bar>x\<bar> + 1 / 2\<rfloor>"

definition spec_heuristicVolume :: "real \<Rightarrow> Ability \<Rightarrow> jsnum \<times> jsnum" where
  "spec_heuristicVolume w ability =
     (case spec_mult ability of
        (a, b) \<Rightarrow> (fl (round_half_away (w * a * 10) / 10), fl (round_half_away (w * b * 10) / 10)))"

text \<open>
  The score as the specification words it. The target volume is the midpoint of the
  heuristic range. The score starts at 100 minus one and a half times the distance of the
  board's volume to the target, the distance capped at 40; then the points that apply are
  added one after the other: 10 for the wave, 8 for the ability, 6 or minus 6 for the
  weight, 3 for a sponsored board. Every operation is the one of JavaScript numbers.
\<close>

definition targetV :: "jsnum \<Rightarrow> Ability \<Rightarrow> jsnum" where
  "targetV weight ability =
     (case heuristicVolume weight ability of (minV, maxV) \<Rightarrow> js_div (js_add minV maxV) (Fin 2))"

definition points :: "'a Board_scheme \<Rightarrow> jsnum \<Rightarrow> WaveType \<Rightarrow> Ability \<Rightarrow> jsnum list" where
  "points b weight wave ability =
     (if wave_str wave \<in> set (waveTypes b) then [Fin 10] else [])
     @ (if ability_str ability \<in> set (abilities b) then [Fin 8] else [])
     @ [if js_le (fst (recommendedWeight b)) weight \<and> js_le weight (snd (recommendedWeight b))
        then Fin 6 else Fin (- 6)]
     @ (if sponsored b = Some True then [Fin 3] else [])"

definition spec_scoreBoard :: "'a Board_scheme \<Rightarrow> jsnum \<Rightarrow> WaveType \<Rightarrow> Ability \<Rightarrow> jsnum" where
  "spec_scoreBoard b weight wave ability =
     foldl js_add
       (js_sub (Fin 100)
          (js_mul (Math_min (Math_abs (js_sub (volume b) (targetV weight ability))) (Fin 40)) (Fin 1.5)))
       (points b weight wave ability)"

section \<open>The fallback catalog\<close>

definition js_monsta_2024 :: Board where
  "js_monsta_2024 = \<lparr>board_id = ''js-monsta-2024'', shaper = ''JS Industries'',
     model = ''Monsta 2024'', waveTypes = [''small_beach'', ''mellow_point'', ''punchy_reef''],
     abilities = [''intermediate'', ''advanced''], recommendedWeight = (Fin 65, Fin 95),
     board_length = ''6'0'' @ [CHR 0x22], volume = fl 31.5, tail = ''Squash'', fins = ''Thruster / 5-fin'',
     construction = ''PU/PE'',
     img = ''https://images.unsplash.com/photo-1544551763-7ef420b9b04c?q=80&w=1200&auto=format&fit=crop'',
     sponsored = None\<rparr>"

definition ci_happy_everyday :: Board where
  "ci_happy_everyday = \<lparr>board_id = ''ci-happy-everyday'', shaper = ''Channel Islands'',
     model = ''Happy Everyday'', waveTypes = [''small_beach'', ''mellow_point''],
     abilities = [''beginner'', ''intermediate''], recommendedWeight = (Fin 55, Fin 90),
     board_length = ''5'10'' @ [CHR 0x22], volume = fl 30.3, tail = ''Rounded Squash'',
     fins = ''Thruster / Quad'', construction = ''PU/PE / Spine-Tek'',
     img = ''https://images.unsplash.com/photo-1540932239986-30128078f3c5?q=80&w=1200&auto=format&fit=crop'',
     sponsored = Some True\<rparr>"

definition pyzel_ghost :: Board where
  "pyzel_ghost = \<lparr>board_id = ''pyzel-ghost'', shaper = ''Pyzel'', model = ''Ghost'',
     waveTypes = [''punchy_reef'', ''overhead''], abilities = [''intermediate'', ''advanced''],
     recommendedWeight = (Fin 70, Fin 105), board_length = ''6'2'' @ [CHR 0x22], volume = fl 32.8,
     tail = ''Round'', fins = ''Thruster'', construction = ''PU/PE / Epoxy'',
     img = ''https://images.unsplash.com/photo-1496545672447-f699b503d270?q=80&w=1200&auto=format&fit=crop'',
     sponsored = None\<rparr>"

definition FALLBACK_BOARDS :: "Board list" where
  "FALLBACK_BOARDS = [js_monsta_2024, ci_happy_everyday, pyzel_ghost]"

section \<open>Ranking\<close>

text \<open>
  \<open>Array.prototype.sort\<close> with a comparator. The sort is stable, and for a consistent
  comparator the language leaves one result; insertion from the right computes it. An
  element moves behind another only when the comparator is positive there; a comparator
  value of \<open>NaN\<close> counts as zero.
\<close>

fun sort_insert :: "('a \<Rightarrow> 'a \<Rightarrow> jsnum) \<Rightarrow> 'a \<Rightarrow> 'a list \<Rightarrow> 'a list" where
  "sort_insert cmp x [] = [x]"
| "sort_insert cmp x (y # ys) =
     (if js_gt (cmp x y) (Fin 0) then y # sort_insert cmp x ys else x # y # ys)"

definition Array_sort :: "('a \<Rightarrow> 'a \<Rightarrow> jsnum) \<Rightarrow> 'a list \<Rightarrow> 'a list" where
  "Array_sort cmp xs = foldr (sort_insert cmp) xs []"

text \<open>The state \<open>sort\<close> of the page, \<open>"best" | "volume" | "sponsored"\<close>; a variable that
  holds it is \<open>sortMode\<close> here.\<close>

datatype SortMode = sort_best | sort_volume | sort_sponsored

text \<open>The ranking reads the state \<open>boards\<close> at its declared type, an array of boards or
  \<open>null\<close>, which is \<open>None\<close> here.\<close>

definition enriched :: "Board list option \<Rightarrow> jsnum \<Rightarrow> WaveType \<Rightarrow> Ability \<Rightarrow> ScoredBoard list" where
  "enriched boards weight wave ability =
     map (\<lambda>b. with_score b (scoreBoard b weight wave ability))
       (case boards of None \<Rightarrow> [] | Some bs \<Rightarrow> bs)"

text \<open>The value \<open>list\<close> of \<open>filtered\<close> before the \<open>switch\<close>, then \<open>filtered\<close> itself.\<close>

definition filtered_list ::
  "ScoredBoard list \<Rightarrow> WaveType \<Rightarrow> Ability \<Rightarrow> jsnum \<Rightarrow> jsnum \<Rightarrow> string list \<Rightarrow> ScoredBoard list" where
  "filtered_list enr wave ability minV maxV selectedShapers =
     (let list =
        filter (\<lambda>b. js_ge (volume b) (js_sub minV (Fin 6)) \<and> js_le (volume b) (js_add maxV (Fin 6)))
          (filter (\<lambda>b. ability_str ability \<in> set (abilities b))
            (filter (\<lambda>b. wave_str wave \<in> set (waveTypes b)) enr))
      in if selectedShapers \<noteq> [] then filter (\<lambda>b. shaper b \<in> set selectedShapers) list else list)"

definition filtered ::
  "ScoredBoard list \<Rightarrow> WaveType \<Rightarrow> Ability \<Rightarrow> jsnum \<Rightarrow> jsnum \<Rightarrow> SortMode \<Rightarrow> string list
     \<Rightarrow> ScoredBoard list" where
  "filtered enr wave ability minV maxV sortMode selectedShapers =
     (let list = filtered_list enr wave ability minV maxV selectedShapers
      in case sortMode of
           sort_volume \<Rightarrow>
             (let target = js_div (js_add minV maxV) (Fin 2)
              in Array_sort (\<lambda>a b. js_sub (Math_abs (js_sub (volume a) target))
                                     (Math_abs (js_sub (volume b) target))) list)
         | sort_sponsored \<Rightarrow>
             Array_sort (\<lambda>a b. js_sub (Number_of_bool (truthy (sponsored b)))
                                  (Number_of_bool (truthy (sponsored a)))) list
         | sort_best \<Rightarrow> Array_sort (\<lambda>a b. js_sub (score b) (score a)) list)"

text \<open>
  A \<open>Map\<close> keeps its keys in the order of their first insertion: an association list
  with one entry for a key. \<open>Map_push m k v\<close> is \<open>m.get(k).push(v)\<close>.
\<close>

definition Map_has :: "('k \<times> 'v) list \<Rightarrow> 'k \<Rightarrow> bool" where
  "Map_has m k = (k \<in> set (map fst m))"

definition Map_set :: "('k \<times> 'v) list \<Rightarrow> 'k \<Rightarrow> 'v \<Rightarrow> ('k \<times> 'v) list" where
  "Map_set m k v =
     (if Map_has m k then map (\<lambda>(k', v'). if k' = k then (k', v) else (k', v')) m
      else m @ [(k, v)])"

definition Map_push :: "('k \<times> 'v list) list \<Rightarrow> 'k \<Rightarrow> 'v \<Rightarrow> ('k \<times> 'v list) list" where
  "Map_push m k v = map (\<lambda>(k', arr). if k' = k then (k', arr @ [v]) else (k', arr)) m"

text \<open>One entry \<open>{ shaper, board }\<close> of the top picks; the key \<open>shaper\<close> is \<open>brand\<close> here.\<close>

record TopPick =
  brand :: string
  board :: ScoredBoard

text \<open>
  The body of the loop over \<open>filtered\<close>, the loop, and the top picks. The first element
  of a group's sorted array is taken with \<open>hd\<close>: a group is never empty (lemma
  \<open>group_by_shaper_nonempty\<close>), so the out-of-range read cannot happen.
\<close>

definition group_step ::
  "(string \<times> ScoredBoard list) list \<Rightarrow> ScoredBoard \<Rightarrow> (string \<times> ScoredBoard list) list" where
  "group_step by b =
     Map_push (if \<not> Map_has by (shaper b) then Map_set by (shaper b) [] else by) (shaper b) b"

definition group_by_shaper :: "ScoredBoard list \<Rightarrow> (string \<times> ScoredBoard list) list" where
  "group_by_shaper flt = foldl group_step [] flt"

definition topPicksByShaper :: "ScoredBoard list \<Rightarrow> TopPick list" where
  "topPicksByShaper flt =
     (let tops = map (\<lambda>(shaper, arr).
                    \<lparr>brand = shaper, board = hd (Array_sort (\<lambda>a b. js_sub (score b) (score a)) arr)\<rparr>)
                  (group_by_shaper flt)
      in Array_sort (\<lambda>a b. js_sub (score (board b)) (score (board a))) tops)"

text \<open>
  The two derived views of the page as one function of its state: \<open>filtered\<close> (the view
  \<open>all\<close> of the specification) and \<open>topPicksByShaper\<close> (the view \<open>topPerBrand\<close>).
\<close>

definition rankCatalog ::
  "Board list option \<Rightarrow> jsnum \<Rightarrow> WaveType \<Rightarrow> Ability \<Rightarrow> SortMode \<Rightarrow> string list
     \<Rightarrow> ScoredBoard list \<times> TopPick list" where
  "rankCatalog boards weight wave ability sortMode selectedShapers =
     (case heuristicVolume weight ability of
        (minV, maxV) \<Rightarrow>
          let flt = filtered (enriched boards weight wave ability) wave ability minV maxV sortMode
                      selectedShapers
          in (flt, topPicksByShaper flt))"

section \<open>Strings\<close>

text \<open>
  A string is a list of 8-bit characters; white space and letter case are those of
  ASCII. \<open>is_space\<close> is the class \<open>\s\<close> there (tab, line feed, vertical tab, form feed,
  carriage return, space), which is also what \<open>trim\<close> removes.
\<close>

definition is_space :: "char \<Rightarrow> bool" where
  "is_space c = (c \<in> set [CHR 0x09, CHR 0x0A, CHR 0x0B, CHR 0x0C, CHR 0x0D, CHR 0x20])"

definition trim :: "string \<Rightarrow> string" where
  "trim s = rev (dropWhile is_space (rev (dropWhile is_space s)))"

definition lower_char :: "char \<Rightarrow> char" where
  "lower_char c =
     (case map_of (zip ''ABCDEFGHIJKLMNOPQRSTUVWXYZ'' ''abcdefghijklmnopqrstuvwxyz'') c of
        Some d \<Rightarrow> d
      | None \<Rightarrow> c)"

definition toLowerCase :: "string \<Rightarrow> string" where
  "toLowerCase s = map lower_char s"

text \<open>\<open>s.split(c)\<close> for a one-character separator: never an empty array.\<close>

fun split_on :: "char \<Rightarrow> string \<Rightarrow> string \<Rightarrow> string list" where
  "split_on sep [] cur = [cur]"
| "split_on sep (c # cs) cur =
     (if c = sep then cur # split_on sep cs [] else split_on sep cs (cur @ [c]))"

definition split :: "string \<Rightarrow> char \<Rightarrow> string list" where
  "split s sep = split_on sep s []"

text \<open>\<open>s.split(/\r?\n/)\<close>: a line ends at a line feed, a carriage return before it is part
  of the separator.\<close>

fun split_lines :: "string \<Rightarrow> string \<Rightarrow> string list" where
  "split_lines [] cur = [cur]"
| "split_lines [c] cur = (if c = CHR 0x0A then [cur, []] else [cur @ [c]])"
| "split_lines (c # d # cs) cur =
     (if c = CHR 0x0A then cur # split_lines (d # cs) []
      else if c = CHR 0x0D \<and> d = CHR 0x0A then cur # split_lines cs []
      else split_lines (d # cs) (cur @ [c]))"

text \<open>\<open>s.replace(/\s+/g, "-")\<close>: every maximal run of white space becomes one hyphen.\<close>

function replace_spaces :: "string \<Rightarrow> string" where
  "replace_spaces [] = []"
| "replace_spaces (c # cs) =
     (if is_space c then CHR ''-'' # replace_spaces (dropWhile is_space cs)
      else c # replace_spaces cs)"
  by pat_completeness auto
termination
  by (relation "measure length") (auto simp: length_dropWhile_le less_Suc_eq_le)

text \<open>\<open>xs.indexOf(x)\<close>, and the read \<open>xs[i]\<close>, which is \<open>undefined\<close> outside the array.\<close>

fun indexOf_from :: "'a list \<Rightarrow> 'a \<Rightarrow> int \<Rightarrow> int" where
  "indexOf_from [] x i = - 1"
| "indexOf_from (y # ys) x i = (if y = x then i else indexOf_from ys x (i + 1))"

definition indexOf :: "'a list \<Rightarrow> 'a \<Rightarrow> int" where
  "indexOf xs x = indexOf_from xs x 0"

definition at_index :: "'a list \<Rightarrow> int \<Rightarrow> 'a option" where
  "at_index xs i = (if 0 \<le> i \<and> i < int (length xs) then Some (xs ! nat i) else None)"

text \<open>
  \<open>or_else x d f\<close> is \<open>f (x || d)\<close> for \<open>x\<close> a string or \<open>undefined\<close>, where \<open>f\<close> leaves the
  default as it is: the empty string is falsy. So \<open>x || ""\<close> is \<open>or_else x [] id\<close>, and
  \<open>Number(x || 0)\<close> is \<open>or_else x (Fin 0) Number_of_string\<close>, as \<open>Number\<close> of the number
  0 is 0.
\<close>

definition or_else :: "string option \<Rightarrow> 'a \<Rightarrow> (string \<Rightarrow> 'a) \<Rightarrow> 'a" where
  "or_else x d f = (case x of None \<Rightarrow> d | Some s \<Rightarrow> if s = [] then d else f s)"

text \<open>\<open>String(n)\<close> for a natural number.\<close>

function String_of_nat :: "nat \<Rightarrow> string" where
  "String_of_nat n =
     (if n < 10 then [''0123456789'' ! n]
      else String_of_nat (n div 10) @ [''0123456789'' ! (n mod 10)])"
  by pat_completeness auto
termination
  by (relation "measure id") auto

section \<open>Number applied to a string\<close>

text \<open>
  The conversion \<open>StringToNumber\<close> of the language: white space around the literal is
  dropped and the empty string is 0; a literal is a signed decimal literal (digits, an
  optional fraction, an optional exponent, or \<open>Infinity\<close>) or an unsigned integer literal
  in base 16, 8 or 2; every other string is \<open>NaN\<close>. The number is the double nearest
  to the value the literal denotes, an infinity when that is out of range.
\<close>

definition digits_val :: "nat \<Rightarrow> string \<Rightarrow> nat option" where
  "digits_val base ds =
     (if ds \<noteq> [] \<and> list_all (\<lambda>c. 0 \<le> indexOf ''0123456789abcdef'' (lower_char c)
                                \<and> indexOf ''0123456789abcdef'' (lower_char c) < int base) ds
      then Some (foldl (\<lambda>acc c. acc * base + nat (indexOf ''0123456789abcdef'' (lower_char c))) 0 ds)
      else None)"

definition split_first :: "(char \<Rightarrow> bool) \<Rightarrow> string \<Rightarrow> string \<times> string option" where
  "split_first P s =
     (takeWhile (\<lambda>c. \<not> P c) s,
      case dropWhile (\<lambda>c. \<not> P c) s of [] \<Rightarrow> None | c # r \<Rightarrow> Some r)"

definition ExponentPart :: "string option \<Rightarrow> int option" where
  "ExponentPart ex =
     (case ex of
        None \<Rightarrow> Some 0
      | Some [] \<Rightarrow> None
      | Some (c # r) \<Rightarrow>
          if c = CHR ''+'' then map_option int (digits_val 10 r)
          else if c = CHR ''-'' then map_option (\<lambda>n. - int n) (digits_val 10 r)
          else map_option int (digits_val 10 (c # r)))"

definition StrUnsignedDecimalLiteral :: "string \<Rightarrow> jsnum" where
  "StrUnsignedDecimalLiteral s =
     (if s = ''Infinity'' then PInf
      else case split_first (\<lambda>c. c = CHR ''e'' \<or> c = CHR ''E'') s of
        (m, ex) \<Rightarrow>
          (case split_first (\<lambda>c. c = CHR ''.'') m of
             (ip, fp) \<Rightarrow>
               let frac = (case fp of None \<Rightarrow> [] | Some f \<Rightarrow> f) in
               if ip = [] \<and> frac = [] then NaN
               else case (if ip = [] then Some 0 else digits_val 10 ip,
                          if frac = [] then Some 0 else digits_val 10 frac,
                          ExponentPart ex) of
                      (Some i, Some f, Some e) \<Rightarrow>
                        fl ((real i + real f / 10 ^ length frac)
                            * (if 0 \<le> e then 10 ^ nat e else 1 / 10 ^ nat (- e)))
                    | _ \<Rightarrow> NaN))"

definition NonDecimalIntegerLiteral :: "nat \<Rightarrow> string \<Rightarrow> jsnum" where
  "NonDecimalIntegerLiteral base ds =
     (case digits_val base ds of None \<Rightarrow> NaN | Some n \<Rightarrow> fl (real n))"

definition Number_of_string :: "string \<Rightarrow> jsnum" where
  "Number_of_string s =
     (let t = trim s in
      case t of
        [] \<Rightarrow> Fin 0
      | c # r \<Rightarrow>
          if toLowerCase (take 2 t) = ''0x'' then NonDecimalIntegerLiteral 16 (drop 2 t)
          else if toLowerCase (take 2 t) = ''0o'' then NonDecimalIntegerLiteral 8 (drop 2 t)
          else if toLowerCase (take 2 t) = ''0b'' then NonDecimalIntegerLiteral 2 (drop 2 t)
          else if c = CHR ''+'' then StrUnsignedDecimalLiteral r
          else if c = CHR ''-'' then js_neg (StrUnsignedDecimalLiteral r)
          else StrUnsignedDecimalLiteral t)"

section \<open>CSV ingestion\<close>

text \<open>The loop of \<open>safeParseCSVRow\<close> over the characters of the line, then the function.\<close>

fun csv_scan :: "string \<Rightarrow> string list \<Rightarrow> string \<Rightarrow> bool \<Rightarrow> string list" where
  "csv_scan [] out cur inQ = out @ [cur]"
| "csv_scan (ch # rest) out cur inQ =
     (if ch = CHR 0x22 then csv_scan rest out cur (\<not> inQ)
      else if ch = CHR '','' \<and> \<not> inQ then csv_scan rest (out @ [cur]) [] inQ
      else csv_scan rest out (cur @ [ch]) inQ)"

definition safeParseCSVRow :: "string \<Rightarrow> nat \<Rightarrow> string list option" where
  "safeParseCSVRow line expected =
     (let out = csv_scan line [] [] False in if length out \<ge> expected then Some out else None)"

text \<open>
  \<open>cell headers cols k\<close> is \<open>cols[idx(k)]\<close>: \<open>undefined\<close> when the header has no column
  \<open>k\<close>. \<open>multi\<close> is the value of \<open>waveTypes\<close> and of \<open>abilities\<close>. \<open>row_board\<close> is the object
  pushed for the row of index \<open>i\<close>.
\<close>

definition cell :: "string list \<Rightarrow> string list \<Rightarrow> string \<Rightarrow> string option" where
  "cell headers cols k = at_index cols (indexOf headers k)"

definition multi :: "string \<Rightarrow> string list" where
  "multi w = (if w \<noteq> [] then (if CHR ''|'' \<in> set w then split w (CHR ''|'') else split w (CHR '','')) else [])"

definition row_board :: "string list \<Rightarrow> nat \<Rightarrow> string list \<Rightarrow> Board" where
  "row_board headers i cols =
     (let wave = filter (\<lambda>c. c \<noteq> CHR '' '') (or_else (cell headers cols ''waveTypes'') [] id);
          abil = filter (\<lambda>c. c \<noteq> CHR '' '') (or_else (cell headers cols ''abilities'') [] id);
          sponsoredRaw = toLowerCase (or_else (cell headers cols ''sponsored'') [] id)
      in \<lparr>board_id = or_else (cell headers cols ''id'')
                      (replace_spaces (toLowerCase
                         (or_else (cell headers cols ''shaper'') [] id @ ''-''
                          @ or_else (cell headers cols ''model'') (String_of_nat i) id)))
                      id,
          shaper = or_else (cell headers cols ''shaper'') [] id,
          model = or_else (cell headers cols ''model'') [] id,
          waveTypes = multi wave,
          abilities = multi abil,
          recommendedWeight =
            (or_else (cell headers cols ''recommendedWeightMin'') (Fin 0) Number_of_string,
             or_else (cell headers cols ''recommendedWeightMax'') (Fin 0) Number_of_string),
          board_length = or_else (cell headers cols ''length'') [] id,
          volume = or_else (cell headers cols ''volume'') (Fin 0) Number_of_string,
          tail = or_else (cell headers cols ''tail'') [] id,
          fins = or_else (cell headers cols ''fins'') [] id,
          construction = or_else (cell headers cols ''construction'') [] id,
          img = or_else (cell headers cols ''img'') [] id,
          sponsored = Some (sponsoredRaw \<in> set [''1'', ''true'', ''yes'', ''y''])\<rparr>)"

text \<open>The loop over the rows after the header, from the index \<open>i\<close>; a short row is skipped.\<close>

fun parse_rows :: "string list \<Rightarrow> nat \<Rightarrow> string list \<Rightarrow> Board list" where
  "parse_rows headers i [] = []"
| "parse_rows headers i (row # rows) =
     (case safeParseCSVRow row (length headers) of
        None \<Rightarrow> parse_rows headers (i + 1) rows
      | Some cols \<Rightarrow> row_board headers i cols # parse_rows headers (i + 1) rows)"

definition parseAirtableCSV :: "string \<Rightarrow> Board list" where
  "parseAirtableCSV csv =
     (case filter (\<lambda>r. r \<noteq> []) (split_lines csv []) of
        [] \<Rightarrow> []
      | header # rows \<Rightarrow> parse_rows (map trim (split header (CHR '',''))) 1 rows)"

section \<open>Catalog loader\<close>

datatype DataSource = github | airtable

fun DataSource_str :: "DataSource \<Rightarrow> string" where
  "DataSource_str github = ''github''"
| "DataSource_str airtable = ''airtable''"

definition GITHUB_JSON_URL :: string where
  "GITHUB_JSON_URL = ''https://github.com/DJenkin82/Surfboard-Finder/blob/main/Surfboard%20Finder.txt''"

definition AIRTABLE_CSV_URL :: string where
  "AIRTABLE_CSV_URL = ''https://airtable.com/shrXXXXXXXXXXXXXX/tblXXXXXXXXXXXXXX/viwXXXXXXXXXXXXXX.csv''"

text \<open>
  The test of \<open>/github\.com\/.+\/blob\//\<close>: somewhere \<open>github.com/\<close>, then one character
  or more, none a line terminator, then \<open>/blob/\<close>. \<open>replace_first\<close> is \<open>s.replace(pat, rep)\<close>
  for a string pattern: the first occurrence only.
\<close>

definition is_line_terminator :: "char \<Rightarrow> bool" where
  "is_line_terminator c = (c = CHR 0x0A \<or> c = CHR 0x0D)"

fun blob_follows :: "string \<Rightarrow> bool" where
  "blob_follows [] = False"
| "blob_follows (c # cs) =
     (take 6 (c # cs) = ''/blob/'' \<or> (\<not> is_line_terminator c \<and> blob_follows cs))"

fun github_blob :: "string \<Rightarrow> bool" where
  "github_blob [] = False"
| "github_blob (c # cs) =
     ((take 11 (c # cs) = ''github.com/''
        \<and> (case drop 11 (c # cs) of [] \<Rightarrow> False | d # r \<Rightarrow> \<not> is_line_terminator d \<and> blob_follows r))
      \<or> github_blob cs)"

fun replace_first :: "string \<Rightarrow> string \<Rightarrow> string \<Rightarrow> string" where
  "replace_first pat rep [] = (if pat = [] then rep else [])"
| "replace_first pat rep (c # cs) =
     (if take (length pat) (c # cs) = pat then rep @ drop (length pat) (c # cs)
      else c # replace_first pat rep cs)"

definition normalizeGithubRaw :: "string \<Rightarrow> string" where
  "normalizeGithubRaw url =
     (if github_blob url
      then replace_first ''/blob/'' ''/''
             (replace_first ''https://github.com/'' ''https://raw.githubusercontent.com/'' url)
      else url)"

text \<open>
  What \<open>fetch\<close> gives for a URL: the promise is rejected, or it is a response with its
  \<open>ok\<close> flag, its status and its text. \<open>r.json()\<close> is a parameter \<open>json\<close> of the loader: the
  value decoded from the text, or \<open>None\<close> when the promise is rejected. The decoded value
  is any JSON value: the loader stores it as it is, an array of boards or not. What the
  body of \<open>try\<close> throws is a value of \<open>thrown\<close>.
\<close>

datatype FetchResult = Rejected | Response bool nat string

datatype thrown = FetchRejected | StatusError string | JsonRejected

datatype JSON = JNull | JBool bool | JNumber jsnum | JString string | JArray "JSON list"
  | JObject "(string \<times> JSON) list"

text \<open>
  The value of the state \<open>boards\<close>: an array of boards the program made (the fallback set
  or the boards of a CSV text), or a decoded JSON value; \<open>null\<close> is \<open>Decoded JNull\<close>.
\<close>

datatype Catalog = Boards "Board list" | Decoded JSON

definition fetch_data ::
  "DataSource \<Rightarrow> (string \<Rightarrow> FetchResult) \<Rightarrow> (string \<Rightarrow> JSON option) \<Rightarrow> thrown + Catalog" where
  "fetch_data DATA_SOURCE fetch json =
     (if DATA_SOURCE = airtable
      then (case fetch AIRTABLE_CSV_URL of
              Rejected \<Rightarrow> Inl FetchRejected
            | Response ok status text \<Rightarrow>
                if \<not> ok then Inl (StatusError (''Airtable '' @ String_of_nat status))
                else Inr (Boards (parseAirtableCSV text)))
      else (let url = normalizeGithubRaw GITHUB_JSON_URL
            in case fetch url of
                 Rejected \<Rightarrow> Inl FetchRejected
               | Response ok status text \<Rightarrow>
                   if \<not> ok then Inl (StatusError (''GitHub '' @ String_of_nat status))
                   else (case json text of None \<Rightarrow> Inl JsonRejected | Some data \<Rightarrow> Inr (Decoded data))))"

text \<open>The state of the page that \<open>load\<close> writes, its initial value, and \<open>load\<close>; \<open>cancelled\<close>
  is the flag the clean-up of the effect sets.\<close>

record PageState =
  st_boards :: Catalog
  st_isLoading :: bool
  st_error :: "string option"

definition initial_state :: PageState where
  "initial_state = \<lparr>st_boards = Decoded JNull, st_isLoading = True, st_error = None\<rparr>"

definition load ::
  "DataSource \<Rightarrow> (string \<Rightarrow> FetchResult) \<Rightarrow> (string \<Rightarrow> JSON option) \<Rightarrow> bool
     \<Rightarrow> PageState \<Rightarrow> PageState" where
  "load DATA_SOURCE fetch json cancelled st =
     (let st1 = st\<lparr>st_isLoading := True, st_error := None\<rparr>;
          st2 = (case fetch_data DATA_SOURCE fetch json of
                   Inr data \<Rightarrow> if \<not> cancelled then st1\<lparr>st_boards := data\<rparr> else st1
                 | Inl e \<Rightarrow>
                     if \<not> cancelled
                     then st1\<lparr>st_boards := Boards FALLBACK_BOARDS,
                              st_error := Some (''Using sample data ('' @ DataSource_str DATA_SOURCE
                                                @ '' fetch failed)'')\<rparr>
                     else st1)
      in if \<not> cancelled then st2\<lparr>st_isLoading := False\<rparr> else st2)"

text \<open>Environments for the examples.\<close>

definition fetch_empty_ok :: "string \<Rightarrow> FetchResult" where
  "fetch_empty_ok url = Response True 200 []"

definition fetch_not_found :: "string \<Rightarrow> FetchResult" where
  "fetch_not_found url = Response False 404 ''Not Found''"

definition fetch_null_ok :: "string \<Rightarrow> FetchResult" where
  "fetch_null_ok url = Response True 200 ''null''"

definition json_rejects :: "string \<Rightarrow> JSON option" where
  "json_rejects text = None"

definition json_null :: "string \<Rightarrow> JSON option" where
  "json_null text = (if text = ''null'' then Some JNull else None)"

text \<open>The two rules of the ingestion as the specification words them: the flag is read from
  the trimmed, lower-cased cell, and an unparsable number is 0.\<close>

definition spec_sponsored :: "string \<Rightarrow> bool" where
  "spec_sponsored c = (toLowerCase (trim c) \<in> set [''1'', ''true'', ''yes'', ''y''])"

definition spec_numeric :: "string option \<Rightarrow> jsnum" where
  "spec_numeric c =
     (case c of
        None \<Rightarrow> Fin 0
      | Some s \<Rightarrow> if Number_of_string s = NaN then Fin 0 else Number_of_string s)"

text \<open>A CSV text for the examples.\<close>

definition demo_csv :: string where
  "demo_csv = ''id,shaper,volume,sponsored'' @ [CHR 0x0A]
     @ ''a1,Lost,abc, yes'' @ [CHR 0x0D, CHR 0x0A]
     @ ''a2,Lost,,YES'' @ [CHR 0x0A]
     @ ''short,row'' @ [CHR 0x0A]
     @ ''a3,Pyzel,31.5,no''"

section \<open>The ranking on a store of arrays\<close>

text \<open>
  \<open>sort\<close> and \<open>push\<close> change an array in place, \<open>map\<close> and \<open>filter\<close> make a new one. To
  follow which arrays the ranking writes, the arrays of scored boards live in a store:
  \<open>cells\<close> maps an address to the content of the array there, and the addresses below
  \<open>next_addr\<close> are in use. The catalog itself is only read (by \<open>map\<close>) and the array of
  top picks is made and sorted once; both stay values.
\<close>

record Heap =
  cells :: "nat \<Rightarrow> ScoredBoard list"
  next_addr :: nat

definition new_array :: "ScoredBoard list \<Rightarrow> Heap \<Rightarrow> nat \<times> Heap" where
  "new_array xs h =
     (next_addr h, h\<lparr>cells := (cells h)(next_addr h := xs), next_addr := Suc (next_addr h)\<rparr>)"

definition filter_h :: "(ScoredBoard \<Rightarrow> bool) \<Rightarrow> nat \<Rightarrow> Heap \<Rightarrow> nat \<times> Heap" where
  "filter_h p a h = new_array (filter p (cells h a)) h"

definition sort_h :: "(ScoredBoard \<Rightarrow> ScoredBoard \<Rightarrow> jsnum) \<Rightarrow> nat \<Rightarrow> Heap \<Rightarrow> nat \<times> Heap" where
  "sort_h cmp a h = (a, h\<lparr>cells := (cells h)(a := Array_sort cmp (cells h a))\<rparr>)"

definition push_h :: "nat \<Rightarrow> ScoredBoard \<Rightarrow> Heap \<Rightarrow> Heap" where
  "push_h a x h = h\<lparr>cells := (cells h)(a := cells h a @ [x])\<rparr>"

definition enriched_h ::
  "Board list option \<Rightarrow> jsnum \<Rightarrow> WaveType \<Rightarrow> Ability \<Rightarrow> Heap \<Rightarrow> nat \<times> Heap" where
  "enriched_h boards weight wave ability h = new_array (enriched boards weight wave ability) h"

definition filtered_h ::
  "nat \<Rightarrow> WaveType \<Rightarrow> Ability \<Rightarrow> jsnum \<Rightarrow> jsnum \<Rightarrow> SortMode \<Rightarrow> string list \<Rightarrow> Heap
     \<Rightarrow> nat \<times> Heap" where
  "filtered_h enr wave ability minV maxV sortMode selectedShapers h =
     (case filter_h (\<lambda>b. wave_str wave \<in> set (waveTypes b)) enr h of (l1, h1) \<Rightarrow>
      case filter_h (\<lambda>b. ability_str ability \<in> set (abilities b)) l1 h1 of (l2, h2) \<Rightarrow>
      case filter_h (\<lambda>b. js_ge (volume b) (js_sub minV (Fin 6))
                          \<and> js_le (volume b) (js_add maxV (Fin 6))) l2 h2 of (l3, h3) \<Rightarrow>
      case (if selectedShapers \<noteq> []
            then filter_h (\<lambda>b. shaper b \<in> set selectedShapers) l3 h3 else (l3, h3)) of (list, h4) \<Rightarrow>
      case sortMode of
        sort_volume \<Rightarrow>
          (let target = js_div (js_add minV maxV) (Fin 2)
           in sort_h (\<lambda>a b. js_sub (Math_abs (js_sub (volume a) target))
                               (Math_abs (js_sub (volume b) target))) list h4)
      | sort_sponsored \<Rightarrow>
          sort_h (\<lambda>a b. js_sub (Number_of_bool (truthy (sponsored b)))
                           (Number_of_bool (truthy (sponsored a)))) list h4
      | sort_best \<Rightarrow> sort_h (\<lambda>a b. js_sub (score b) (score a)) list h4)"

text \<open>The map \<open>by\<close> holds the address of each group's array. In \<open>by.get(k)!.push(b)\<close> the key
  is present; the branch for an absent key leaves the store as it is.\<close>

definition group_step_h ::
  "(string \<times> nat) list \<times> Heap \<Rightarrow> ScoredBoard \<Rightarrow> (string \<times> nat) list \<times> Heap" where
  "group_step_h s b =
     (case s of (by, h) \<Rightarrow>
      case (if \<not> Map_has by (shaper b)
            then (case new_array [] h of (a, h') \<Rightarrow> (Map_set by (shaper b) a, h'))
            else (by, h)) of (by', h') \<Rightarrow>
        (by', case map_of by' (shaper b) of Some a \<Rightarrow> push_h a b h' | None \<Rightarrow> h'))"

fun tops_h :: "(string \<times> nat) list \<Rightarrow> Heap \<Rightarrow> TopPick list \<times> Heap" where
  "tops_h [] h = ([], h)"
| "tops_h ((key, arr) # by) h =
     (case sort_h (\<lambda>a b. js_sub (score b) (score a)) arr h of (sorted_arr, h1) \<Rightarrow>
      case tops_h by h1 of (tops, h2) \<Rightarrow>
        (\<lparr>brand = key, board = hd (cells h1 sorted_arr)\<rparr> # tops, h2))"

definition topPicksByShaper_h :: "nat \<Rightarrow> Heap \<Rightarrow> TopPick list \<times> Heap" where
  "topPicksByShaper_h flt h =
     (case foldl group_step_h ([], h) (cells h flt) of (by, h1) \<Rightarrow>
      case tops_h by h1 of (tops, h2) \<Rightarrow>
        (Array_sort (\<lambda>a b. js_sub (score (board b)) (score (board a))) tops, h2))"

definition rankCatalog_h ::
  "Board list option \<Rightarrow> jsnum \<Rightarrow> WaveType \<Rightarrow> Ability \<Rightarrow> SortMode \<Rightarrow> string list \<Rightarrow> Heap
     \<Rightarrow> (ScoredBoard list \<times> TopPick list) \<times> Heap" where
  "rankCatalog_h boards weight wave ability sortMode selectedShapers h =
     (case heuristicVolume weight ability of (minV, maxV) \<Rightarrow>
      case enriched_h boards weight wave ability h of (enr, h1) \<Rightarrow>
      case filtered_h enr wave ability minV maxV sortMode selectedShapers h1 of (flt, h2) \<Rightarrow>
      case topPicksByShaper_h flt h2 of (tops, h3) \<Rightarrow> ((cells h3 flt, tops), h3))"

section \<open>Auxiliary notions of the proofs\<close>



definition nonneg :: "jsnum \<Rightarrow> bool" where
  "nonneg j = (case j of Fin y \<Rightarrow> 0 \<le> y | PInf \<Rightarrow> True | _ \<Rightarrow> False)"

definition nonpos :: "jsnum \<Rightarrow> bool" where
  "nonpos j = (case j of Fin y \<Rightarrow> y \<le> 0 | NInf \<Rightarrow> True | _ \<Rightarrow> False)"


definition between :: "int \<Rightarrow> int \<Rightarrow> jsnum \<Rightarrow> bool" where
  "between a b j = (\<exists>y. j = Fin y \<and> of_int a \<le> y \<and> y \<le> of_int b)"



definition mk_top :: "string \<times> ScoredBoard list \<Rightarrow> TopPick" where
  "mk_top = (\<lambda>(shaper, arr).
      \<lparr>brand = shaper, board = hd (Array_sort (\<lambda>a b. js_sub (score b) (score a)) arr)\<rparr>)"

text \<open>What relates the map of group addresses and the store to a grouping by value: the keys
  agree, each address holds its group, the addresses are distinct, in use and not below \<open>n\<close>.\<close>

definition groups_at ::
  "nat \<Rightarrow> (string \<times> nat) list \<Rightarrow> Heap \<Rightarrow> (string \<times> ScoredBoard list) list \<Rightarrow> bool" where
  "groups_at n by h G =
     (list_all2 (\<lambda>ka kg. fst ka = fst kg \<and> cells h (snd ka) = snd kg) by G
      \<and> distinct (map fst by) \<and> distinct (map snd by)
      \<and> list_all (\<lambda>a. n \<le> a \<and> a < next_addr h) (map snd by)
      \<and> n \<le> next_addr h)"

text \<open>A catalog for the examples: the fallback boards and a second board of one shaper.\<close>

definition js_black_box :: Board where
  "js_black_box = js_monsta_2024\<lparr>board_id := ''js-black-box'', model := ''Black Box'',
     volume := Fin 34, sponsored := Some True\<rparr>"

definition demo_catalog :: "Board list" where
  "demo_catalog = [js_monsta_2024, ci_happy_everyday, pyzel_ghost, js_black_box]"

text \<open>
  More boards for the examples: a board of 37.7 litres, as far above the target of 34
  litres as the 30.3 litres of \<open>ci_happy_everyday\<close> are below it, when the distances are
  taken exactly; boards of 46, of 28.2 and of 36.15 litres; a board whose volume is
  infinite.
\<close>

definition ci_high :: Board where
  "ci_high = ci_happy_everyday\<lparr>board_id := ''ci-high'', model := ''High'', volume := fl 37.7\<rparr>"




definition ci_unbounded :: Board where
  "ci_unbounded = ci_happy_everyday\<lparr>board_id := ''ci-unbounded'', model := ''Unbounded'',
     volume := PInf\<rparr>"

text \<open>The weight \<open>1e308\<close>.\<close>

definition heavy :: jsnum where
  "heavy = fl (10 ^ 308)"

definition tie_catalog :: "Board list" where
  "tie_catalog = [js_monsta_2024, ci_high, ci_happy_everyday, pyzel_ghost, js_black_box]"

text \<open>The store before any array is made.\<close>

definition empty_heap :: Heap where
  "empty_heap = \<lparr>cells = (\<lambda>a. []), next_addr = 0\<rparr>"

section \<open>Properties of the rounding\<close>

lemmas fl_eval = fl_def overflow_def round_to_def ulp_def binade_def steps_def rne_def Let_def

lemma rne_ge: "of_int k \<le> r \<Longrightarrow> k \<le> rne r"
proof -
  assume "of_int k \<le> r"
  then have "k \<le> \<lfloor>r\<rfloor>" by (simp add: le_floor_iff)
  then show ?thesis by (simp add: rne_def Let_def)
qed

lemma rne_le: "r \<le> of_int k \<Longrightarrow> rne r \<le> k"
proof -
  assume a: "r \<le> of_int k"
  then have f: "\<lfloor>r\<rfloor> \<le> k" by (simp add: floor_le_iff)
  show ?thesis
  proof (cases "r = of_int \<lfloor>r\<rfloor>")
    case True
    then show ?thesis using f by (simp add: rne_def Let_def)
  next
    case False
    then have "of_int \<lfloor>r\<rfloor> < r" using of_int_floor_le [of r] by linarith
    then have "of_int \<lfloor>r\<rfloor> < (of_int k :: real)" using a by linarith
    then have "\<lfloor>r\<rfloor> + 1 \<le> k" by simp
    then show ?thesis using f by (simp add: rne_def Let_def)
  qed
qed

lemma rne_of_int: "rne (of_int k) = k"
  by (simp add: rne_def)

lemma scale_down_le: "1 \<le> x \<Longrightarrow> 2 ^ scale_down ss x \<le> x"
proof (induction ss arbitrary: x)
  case Nil
  then show ?case by simp
next
  case (Cons s ss)
  show ?case
  proof (cases "2 ^ s \<le> x")
    case True
    then have "1 \<le> x / 2 ^ s" by simp
    from Cons.IH [OF this] have "2 ^ scale_down ss (x / 2 ^ s) * 2 ^ s \<le> x"
      by (simp add: field_simps)
    then show ?thesis using True by (simp add: power_add mult.commute)
  next
    case False
    then show ?thesis using Cons by simp
  qed
qed





lemma binade_le:
  assumes "\<bar>x\<bar> < 2 ^ n"
  shows "binade x < int n \<or> binade x \<le> - 1"
proof (cases "1 \<le> \<bar>x\<bar>")
  case True
  have "2 ^ scale_down steps \<bar>x\<bar> \<le> \<bar>x\<bar>" using True by (rule scale_down_le)
  then have "(2::real) ^ scale_down steps \<bar>x\<bar> < 2 ^ n" using assms by linarith
  then have "scale_down steps \<bar>x\<bar> < n" by (simp add: power_strict_increasing_iff)
  then show ?thesis using True by (simp add: binade_def)
next
  case False
  then show ?thesis by (simp add: binade_def)
qed


lemma ulp_pos: "0 < ulp x"
  by (simp add: ulp_def)

lemma overflow_small: "\<bar>y\<bar> < 2 ^ 1024 \<Longrightarrow> overflow y = Fin y"
  by (simp add: overflow_def abs_if split: if_splits)

lemma fl_between:
  assumes a: "of_int a \<le> x" and b: "x \<le> of_int b"
    and sa: "\<bar>a\<bar> \<le> 2 ^ 52" and sb: "\<bar>b\<bar> \<le> 2 ^ 52"
  shows "\<exists>y. fl x = Fin y \<and> of_int a \<le> y \<and> y \<le> of_int b"
proof (cases "x = 0")
  case True
  then show ?thesis using a b by (simp add: fl_def)
next
  case False
  have ra: "\<bar>real_of_int a\<bar> \<le> 2 ^ 52" and rb: "\<bar>real_of_int b\<bar> \<le> 2 ^ 52"
    using sa sb by (metis of_int_abs of_int_le_iff of_int_numeral of_int_power)+
  then have "\<bar>x\<bar> \<le> 2 ^ 52" using a b by (simp add: abs_le_iff)
  then have "\<bar>x\<bar> < 2 ^ 53" by simp
  from binade_le [OF this] have e: "binade x \<le> 52" by auto
  define k where "k = nat (52 - binade x)"
  have u: "ulp x = inverse (2 ^ k)"
  proof -
    have "binade x - 52 = - int k" using e by (simp add: k_def)
    then show ?thesis by (simp only: ulp_def power_int_minus power_int_of_nat)
  qed
  define n where "n = rne (x * 2 ^ k)"
  have y: "round_to (ulp x) x = of_int n / 2 ^ k"
    by (simp add: round_to_def u n_def field_simps)
  have "real_of_int (a * 2 ^ k) \<le> x * 2 ^ k" using a by simp
  then have "a * 2 ^ k \<le> n" unfolding n_def by (rule rne_ge)
  then have "real_of_int (a * 2 ^ k) \<le> of_int n" by (simp only: of_int_le_iff)
  then have lo: "of_int a \<le> real_of_int n / 2 ^ k" by (simp add: field_simps)
  have "x * 2 ^ k \<le> real_of_int (b * 2 ^ k)" using b by simp
  then have "n \<le> b * 2 ^ k" unfolding n_def by (rule rne_le)
  then have "of_int n \<le> real_of_int (b * 2 ^ k)" by (simp only: of_int_le_iff)
  then have hi: "real_of_int n / 2 ^ k \<le> of_int b" by (simp add: field_simps)
  have "\<bar>real_of_int n / 2 ^ k\<bar> \<le> 2 ^ 52" using lo hi ra rb by (simp add: abs_le_iff)
  then have "\<bar>real_of_int n / 2 ^ k\<bar> < 2 ^ 1024" by simp
  then have "overflow (real_of_int n / 2 ^ k) = Fin (real_of_int n / 2 ^ k)" by (rule overflow_small)
  then show ?thesis using False lo hi by (simp add: fl_def y)
qed

lemma fl_of_int: "\<bar>k\<bar> \<le> 2 ^ 52 \<Longrightarrow> fl (of_int k) = Fin (of_int k)"
  using fl_between [of k "of_int k" k] by auto

lemma fl_nonneg: "0 \<le> x \<Longrightarrow> nonneg (fl x)"
proof (cases "x = 0")
  case True
  then show ?thesis by (simp add: fl_def nonneg_def)
next
  case False
  assume "0 \<le> x"
  then have "real_of_int 0 \<le> x / ulp x" using ulp_pos [of x] by simp
  then have "0 \<le> rne (x / ulp x)" by (rule rne_ge)
  then have "0 \<le> round_to (ulp x) x" using ulp_pos [of x] by (simp add: round_to_def)
  then show ?thesis using False by (simp add: fl_def overflow_def nonneg_def)
qed

lemma fl_nonpos: "x \<le> 0 \<Longrightarrow> nonpos (fl x)"
proof (cases "x = 0")
  case True
  then show ?thesis by (simp add: fl_def nonpos_def)
next
  case False
  assume "x \<le> 0"
  then have "x / ulp x \<le> real_of_int 0" using ulp_pos [of x] by (simp add: divide_le_0_iff)
  then have "rne (x / ulp x) \<le> 0" by (rule rne_le)
  then have "round_to (ulp x) x \<le> 0" using ulp_pos [of x]
    by (simp add: round_to_def mult_le_0_iff)
  then show ?thesis using False by (simp add: fl_def overflow_def nonpos_def)
qed








section \<open>Properties of the volume heuristic and of the score\<close>

lemma fl_not_NaN: "fl x \<noteq> NaN"
  by (simp add: fl_def overflow_def)

lemma between_fl:
  assumes "of_int a \<le> x" and "x \<le> of_int b" and "\<bar>a\<bar> \<le> 2 ^ 52" and "\<bar>b\<bar> \<le> 2 ^ 52"
  shows "between a b (fl x)"
  unfolding between_def using assms by (rule fl_between)

lemma between_mono: "between a b j \<Longrightarrow> a' \<le> a \<Longrightarrow> b \<le> b' \<Longrightarrow> between a' b' j"
proof -
  assume "between a b j" and a: "a' \<le> a" and b: "b \<le> b'"
  then obtain y where y: "j = Fin y" "of_int a \<le> y" "y \<le> of_int b"
    by (auto simp: between_def)
  have "real_of_int a' \<le> of_int a" "real_of_int b \<le> of_int b'"
    using a b by simp_all
  then have "of_int a' \<le> y" "y \<le> of_int b'" using y by linarith+
  then show ?thesis using y(1) by (simp add: between_def)
qed

lemma js_add_between:
  assumes "between a b j" and "\<bar>a + c\<bar> \<le> 2 ^ 52" and "\<bar>b + c\<bar> \<le> 2 ^ 52"
  shows "between (a + c) (b + c) (js_add j (Fin (of_int c)))"
proof -
  from assms(1) obtain y where y: "j = Fin y" "of_int a \<le> y" "y \<le> of_int b"
    by (auto simp: between_def)
  have "between (a + c) (b + c) (fl (y + of_int c))"
    using y(2,3) assms(2,3) by (intro between_fl) simp_all
  then show ?thesis by (simp add: y(1))
qed

lemma nonneg_not_NaN: "nonneg j \<Longrightarrow> j \<noteq> NaN"
  by (auto simp: nonneg_def)

lemma nonpos_not_NaN: "nonpos j \<Longrightarrow> j \<noteq> NaN"
  by (auto simp: nonpos_def)

lemma js_mul_nonneg: "nonneg j \<Longrightarrow> 0 < c \<Longrightarrow> nonneg (js_mul j (Fin c))"
  by (cases j) (auto simp: nonneg_def [of "Fin _"] nonneg_def [of PInf] nonneg_def [of NInf]
      nonneg_def [of NaN] intro: fl_nonneg)

lemma js_mul_nonpos: "nonpos j \<Longrightarrow> 0 < c \<Longrightarrow> nonpos (js_mul j (Fin c))"
  by (cases j) (auto simp: nonpos_def [of "Fin _"] nonpos_def [of PInf] nonpos_def [of NInf]
      nonpos_def [of NaN] mult_le_0_iff intro: fl_nonpos)

lemma js_div_nonneg: "nonneg j \<Longrightarrow> 0 < c \<Longrightarrow> nonneg (js_div j (Fin c))"
  by (cases j) (auto simp: nonneg_def [of "Fin _"] nonneg_def [of PInf] nonneg_def [of NInf]
      nonneg_def [of NaN] intro: fl_nonneg)

lemma js_div_nonpos: "nonpos j \<Longrightarrow> 0 < c \<Longrightarrow> nonpos (js_div j (Fin c))"
  by (cases j) (auto simp: nonpos_def [of "Fin _"] nonpos_def [of PInf] nonpos_def [of NInf]
      nonpos_def [of NaN] divide_le_0_iff intro: fl_nonpos)

lemma Math_round_nonneg: "nonneg j \<Longrightarrow> nonneg (Math_round j)"
  by (cases j) (auto simp: nonneg_def)

lemma Math_round_nonpos: "nonpos j \<Longrightarrow> nonpos (Math_round j)"
proof (cases j)
  case (Fin x)
  assume "nonpos j"
  then have "x + 1 / 2 < 1" using Fin by (simp add: nonpos_def)
  then have "\<lfloor>x + 1 / 2\<rfloor> < 1" by (simp add: floor_less_iff)
  then show ?thesis using Fin by (simp add: nonpos_def)
qed (auto simp: nonpos_def)

lemma js_add_nonneg: "nonneg i \<Longrightarrow> nonneg j \<Longrightarrow> nonneg (js_add i j)"
  by (cases i; cases j)
     (auto simp: nonneg_def [of "Fin _"] nonneg_def [of PInf] nonneg_def [of NInf]
      nonneg_def [of NaN] intro: fl_nonneg)

lemma js_add_nonpos: "nonpos i \<Longrightarrow> nonpos j \<Longrightarrow> nonpos (js_add i j)"
  by (cases i; cases j)
     (auto simp: nonpos_def [of "Fin _"] nonpos_def [of PInf] nonpos_def [of NInf]
      nonpos_def [of NaN] intro: fl_nonpos)

lemma round1_nonneg: "nonneg j \<Longrightarrow> nonneg (round1 j)"
  unfolding round1_def by (intro js_div_nonneg Math_round_nonneg js_mul_nonneg) simp_all

lemma round1_nonpos: "nonpos j \<Longrightarrow> nonpos (round1 j)"
  unfolding round1_def by (intro js_div_nonpos Math_round_nonpos js_mul_nonpos) simp_all

lemma mult_eval:
  "mult beginner = (Fin (8106479329266893 / 18014398509481984), Fin (2476979795053773 / 4503599627370496))"
  "mult intermediate = (Fin (3422735716801577 / 9007199254740992), Fin (2116691824864133 / 4503599627370496))"
  "mult advanced = (Fin (5404319552844595 / 18014398509481984), Fin (3602879701896397 / 9007199254740992))"
  by (simp_all add: fl_eval)

lemma mult_pos: "\<exists>a b. mult ability = (Fin a, Fin b) \<and> 0 < a \<and> 0 < b"
proof -
  have "\<exists>a b. (Fin x, Fin y) = (Fin a, Fin b) \<and> 0 < a \<and> 0 < b" if "0 < x" "0 < y" for x y :: real
    using that by blast
  note k = this
  show ?thesis
  proof (cases ability)
    case beginner
    show ?thesis unfolding beginner mult_eval by (rule k) simp_all
  next
    case intermediate
    show ?thesis unfolding intermediate mult_eval by (rule k) simp_all
  next
    case advanced
    show ?thesis unfolding advanced mult_eval by (rule k) simp_all
  qed
qed

lemma sign_cases: "j \<noteq> NaN \<Longrightarrow> nonneg j \<or> nonpos j"
  by (cases j) (auto simp: nonneg_def nonpos_def)

lemma targetV_not_NaN:
  assumes "weight \<noteq> NaN"
  shows "targetV weight ability \<noteq> NaN"
proof -
  obtain a b where m: "mult ability = (Fin a, Fin b)" and a: "0 < a" and b: "0 < b"
    using mult_pos by blast
  have t: "targetV weight ability =
      js_div (js_add (round1 (js_mul weight (Fin a))) (round1 (js_mul weight (Fin b)))) (Fin 2)"
    by (simp add: targetV_def heuristicVolume_def m)
  from sign_cases [OF assms] show ?thesis
  proof
    assume "nonneg weight"
    then have "nonneg (targetV weight ability)"
      unfolding t using a b
      by (intro js_div_nonneg js_add_nonneg round1_nonneg js_mul_nonneg) simp_all
    then show ?thesis by (rule nonneg_not_NaN)
  next
    assume "nonpos weight"
    then have "nonpos (targetV weight ability)"
      unfolding t using a b
      by (intro js_div_nonpos js_add_nonpos round1_nonpos js_mul_nonpos) simp_all
    then show ?thesis by (rule nonpos_not_NaN)
  qed
qed


lemma scoreBoard_spec: "scoreBoard b weight wave ability = spec_scoreBoard b weight wave ability"
  by (simp add: scoreBoard_def spec_scoreBoard_def points_def targetV_def js_ge_def js_sub_def
      truthy_def case_prod_beta Let_def)

lemma volDiff_cap:
  assumes "t \<noteq> NaN"
  shows "between 0 40 (Math_min (Math_abs (js_sub (Fin v) t)) (Fin 40))"
proof -
  have "(\<exists>d. Math_abs (js_sub (Fin v) t) = Fin d \<and> 0 \<le> d) \<or> Math_abs (js_sub (Fin v) t) = PInf"
  proof (cases t)
    case (Fin r)
    show ?thesis
      using fl_not_NaN [of "v + - r"] by (cases "fl (v + - r)") (simp_all add: Fin js_sub_def)
  qed (use assms in \<open>simp_all add: js_sub_def\<close>)
  then show ?thesis
    by (auto simp: Math_min_def between_def)
qed

lemma base_between:
  assumes "between 0 40 m"
  shows "between 40 100 (js_sub (Fin 100) (js_mul m (Fin 1.5)))"
proof -
  from assms obtain x where x: "m = Fin x" "0 \<le> x" "x \<le> 40"
    by (auto simp: between_def)
  have "between 0 60 (fl (x * 1.5))"
    using x(2,3) by (intro between_fl) simp_all
  then obtain p where p: "fl (x * 1.5) = Fin p" "0 \<le> p" "p \<le> 60"
    by (auto simp: between_def)
  have e: "js_sub (Fin 100) (js_mul m (Fin 1.5)) = fl (100 + - p)"
    by (simp only: x(1) js_mul.simps p(1) js_sub_def js_neg.simps js_add.simps)
  have "between 40 100 (fl (100 + - p))"
    using p(2,3) by (intro between_fl) simp_all
  then show ?thesis
    by (simp only: e)
qed

lemma add_point:
  assumes "between a b s" and "0 \<le> c" and "\<bar>a + c\<bar> \<le> 2 ^ 52" and "\<bar>b + c\<bar> \<le> 2 ^ 52"
    and "b' = b + c"
  shows "between a b' (foldl js_add s (if p then [Fin (of_int c)] else []))"
proof (cases p)
  case True
  have "between (a + c) (b + c) (js_add s (Fin (of_int c)))"
    using assms(1,3,4) by (rule js_add_between)
  from between_mono [OF this, of a b'] have "between a b' (js_add s (Fin (of_int c)))"
    using assms(2,5) by simp
  then show ?thesis using True by simp
next
  case False
  from between_mono [OF assms(1), of a b'] have "between a b' s"
    using assms(2,5) by simp
  then show ?thesis using False by simp
qed

lemma add_weight_point:
  assumes "between 40 118 s"
  shows "between 34 124 (foldl js_add s [if r then Fin (of_int 6) else Fin (of_int (- 6))])"
proof (cases r)
  case True
  have "between (40 + 6) (118 + 6) (js_add s (Fin (of_int 6)))"
    using assms by (rule js_add_between) simp_all
  from between_mono [OF this, of 34 124] have "between 34 124 (js_add s (Fin (of_int 6)))"
    by simp
  then show ?thesis using True by simp
next
  case False
  have "between (40 + - 6) (118 + - 6) (js_add s (Fin (of_int (- 6))))"
    using assms by (rule js_add_between) simp_all
  from between_mono [OF this, of 34 124] have "between 34 124 (js_add s (Fin (of_int (- 6))))"
    by simp
  then show ?thesis using False by simp
qed

lemma points_between:
  assumes "between 40 100 s"
  shows "between 34 127 (foldl js_add s (points b weight wave ability))"
proof -
  have 1: "between 40 110
      (foldl js_add s (if wave_str wave \<in> set (waveTypes b) then [Fin (of_int 10)] else []))"
    using assms by (rule add_point) simp_all
  have 2: "between 40 118
      (foldl js_add (foldl js_add s (if wave_str wave \<in> set (waveTypes b) then [Fin (of_int 10)] else []))
         (if ability_str ability \<in> set (abilities b) then [Fin (of_int 8)] else []))"
    using 1 by (rule add_point) simp_all
  have 3: "between 34 124
      (foldl js_add (foldl js_add (foldl js_add s
         (if wave_str wave \<in> set (waveTypes b) then [Fin (of_int 10)] else []))
         (if ability_str ability \<in> set (abilities b) then [Fin (of_int 8)] else []))
         [if js_le (fst (recommendedWeight b)) weight \<and> js_le weight (snd (recommendedWeight b))
          then Fin (of_int 6) else Fin (of_int (- 6))])"
    using 2 by (rule add_weight_point)
  have 4: "between 34 127
      (foldl js_add (foldl js_add (foldl js_add (foldl js_add s
         (if wave_str wave \<in> set (waveTypes b) then [Fin (of_int 10)] else []))
         (if ability_str ability \<in> set (abilities b) then [Fin (of_int 8)] else []))
         [if js_le (fst (recommendedWeight b)) weight \<and> js_le weight (snd (recommendedWeight b))
          then Fin (of_int 6) else Fin (of_int (- 6))])
         (if sponsored b = Some True then [Fin (of_int 3)] else []))"
    using 3 by (rule add_point) simp_all
  then show ?thesis
    unfolding points_def foldl_append by (simp only: of_int_numeral of_int_minus)
qed

lemma scoreBoard_between:
  assumes "weight \<noteq> NaN" and "volume b = Fin v"
  shows "between 34 127 (scoreBoard b weight wave ability)"
  unfolding scoreBoard_spec spec_scoreBoard_def assms(2)
  by (intro points_between base_between volDiff_cap targetV_not_NaN assms(1))

lemma hv_80_intermediate: "heuristicVolume (Fin 80) intermediate = (fl 30.4, fl 37.6)"
  by (simp add: heuristicVolume_def round1_def fl_eval)

lemma hv_85_intermediate: "heuristicVolume (Fin 85) intermediate = (fl 32.3, fl 39.9)"
  by (simp add: heuristicVolume_def round1_def fl_eval)


lemma hv_neg7_beginner: "heuristicVolume (Fin (- 7)) beginner = (fl (- 3.1), fl (- 3.9))"
  by (simp add: heuristicVolume_def round1_def fl_eval)

lemma hv_neg1_beginner: "heuristicVolume (Fin (- 1)) beginner = (fl (- 0.4), fl (- 0.5))"
  by (simp add: heuristicVolume_def round1_def fl_eval)

lemma hv_huge: "heuristicVolume (fl (10 ^ 308)) intermediate = (PInf, PInf)"
  by (simp add: heuristicVolume_def round1_def fl_eval)

lemma spec_hv_neg1: "spec_heuristicVolume (- 1) beginner = (fl (- 0.5), fl (- 0.6))"
  by (simp add: spec_heuristicVolume_def round_half_away_def)

lemma spec_hv_85: "spec_heuristicVolume 85 intermediate = (fl 32.3, fl 40)"
  by (simp add: spec_heuristicVolume_def round_half_away_def)

lemma neq1: "fl (- 0.4) \<noteq> fl (- 0.5)" "fl 39.9 \<noteq> fl 40"
  by (simp_all add: fl_eval)


lemma targetV_80_intermediate: "targetV (Fin 80) intermediate = Fin 34"
  by (simp add: targetV_def hv_80_intermediate fl_eval)



lemma score_black_box:
  "scoreBoard js_black_box (Fin 80) mellow_point intermediate = Fin 127"
  by (simp add: scoreBoard_spec spec_scoreBoard_def points_def targetV_80_intermediate
      js_black_box_def js_monsta_2024_def js_sub_def Math_min_def fl_eval)



lemma round1_Fin:
  assumes "js_mul n (Fin 10) = Fin q"
  shows "round1 n = fl (of_int \<lfloor>q + 1 / 2\<rfloor> / 10)"
  by (simp add: round1_def assms)

lemma round_half_away_nonneg: "0 \<le> x \<Longrightarrow> round_half_away x = of_int \<lfloor>x + 1 / 2\<rfloor>"
  by (cases "x = 0") (simp_all add: round_half_away_def)




text \<open>
  C2, as the code has it. Each bound is \<open>round1\<close> of the product of the weight and the
  ability's factor, the product of two doubles rounded to a double. When ten times \<open>n\<close>,
  rounded to a double, is the finite number \<open>q\<close>, \<open>round1 n\<close> is the double nearest to a
  tenth of the integer nearest to \<open>q\<close>, a tie going toward plus infinity; for \<open>q\<close> not
  negative that integer is \<open>q\<close> rounded half away from zero.
  \<open>heuristicVolume(80, intermediate)\<close> is \<open>[30.4, 37.6]\<close>.
\<close>

theorem heuristicVolume_rounding:
  "heuristicVolume weight ability =
     (round1 (js_mul weight (fst (mult ability))), round1 (js_mul weight (snd (mult ability))))
   \<and> (js_mul n (Fin 10) = Fin q \<longrightarrow>
        round1 n = fl (of_int \<lfloor>q + 1 / 2\<rfloor> / 10)
        \<and> of_int \<lfloor>q + 1 / 2\<rfloor> - 1 / 2 \<le> q \<and> q < of_int \<lfloor>q + 1 / 2\<rfloor> + 1 / 2
        \<and> (0 \<le> q \<longrightarrow> round1 n = fl (round_half_away q / 10)))
   \<and> heuristicVolume (Fin 80) intermediate = (fl 30.4, fl 37.6)"
proof (intro conjI impI)
  show "heuristicVolume weight ability =
     (round1 (js_mul weight (fst (mult ability))), round1 (js_mul weight (snd (mult ability))))"
    by (simp add: heuristicVolume_def case_prod_beta)
next
  assume q: "js_mul n (Fin 10) = Fin q"
  then show "round1 n = fl (of_int \<lfloor>q + 1 / 2\<rfloor> / 10)"
    by (rule round1_Fin)
  show "of_int \<lfloor>q + 1 / 2\<rfloor> - 1 / 2 \<le> q"
    using of_int_floor_le [of "q + 1 / 2"] by linarith
  show "q < of_int \<lfloor>q + 1 / 2\<rfloor> + 1 / 2"
    using floor_correct [of "q + 1 / 2"] by linarith
  assume "0 \<le> q"
  then show "round1 n = fl (round_half_away q / 10)"
    using round1_Fin [OF q] by (simp only: round_half_away_nonneg)
next
  show "heuristicVolume (Fin 80) intermediate = (fl 30.4, fl 37.6)"
    by (rule hv_80_intermediate)
qed

theorem heuristicVolume_rounding_witness:
  "js_mul (js_mul (Fin 85) (fl 0.47)) (Fin 10) = Fin (7028078324744191 / 17592186044416)
   \<and> (0::real) \<le> 7028078324744191 / 17592186044416
   \<and> round_half_away (7028078324744191 / 17592186044416) = 399
   \<and> round1 (js_mul (Fin 85) (fl 0.47)) = fl 39.9
   \<and> heuristicVolume (Fin 85) intermediate = (fl 32.3, fl 39.9)
   \<and> heuristicVolume (Fin (- 7)) beginner = (fl (- 3.1), fl (- 3.9))"
proof -
  have q: "js_mul (js_mul (Fin 85) (fl 0.47)) (Fin 10) = Fin (7028078324744191 / 17592186044416)"
    by (simp add: fl_eval)
  have p: "(0::real) \<le> 7028078324744191 / 17592186044416"
    by simp
  have r: "round_half_away (7028078324744191 / 17592186044416) = 399"
    by (simp add: round_half_away_def)
  have "round1 (js_mul (Fin 85) (fl 0.47)) = fl (round_half_away (7028078324744191 / 17592186044416) / 10)"
    using heuristicVolume_rounding [of "Fin 85" intermediate "js_mul (Fin 85) (fl 0.47)"
        "7028078324744191 / 17592186044416"] q p
    by blast
  then have a: "round1 (js_mul (Fin 85) (fl 0.47)) = fl 39.9"
    by (simp only: r)
  from q p r a hv_85_intermediate hv_neg7_beginner show ?thesis
    by (intro conjI)
qed

text \<open>
  C2 as worded fails. For the weight \<open>-1\<close> and a beginner the code gives \<open>[-0.4, -0.5]\<close>:
  \<open>Math.round\<close> takes the ties \<open>-4.5\<close> and \<open>-5.5\<close> toward plus infinity, where a tie away
  from zero gives \<open>[-0.5, -0.6]\<close>. For the weight 85 and an intermediate the code gives
  \<open>[32.3, 39.9]\<close>: the product of the doubles 85 and 0.47 is below 39.95, where the
  decimal product is the tie 39.95, which rounds to 40.
\<close>

theorem heuristicVolume_counterexample:
  "heuristicVolume (Fin (- 1)) beginner = (fl (- 0.4), fl (- 0.5))
   \<and> spec_heuristicVolume (- 1) beginner = (fl (- 0.5), fl (- 0.6))
   \<and> fl (- 0.4) \<noteq> fl (- 0.5)
   \<and> heuristicVolume (Fin 85) intermediate = (fl 32.3, fl 39.9)
   \<and> spec_heuristicVolume 85 intermediate = (fl 32.3, fl 40)
   \<and> fl 39.9 \<noteq> fl 40"
  using hv_neg1_beginner spec_hv_neg1 neq1 hv_85_intermediate spec_hv_85
  by (intro conjI)

text \<open>
  C10. For a board whose volume is a finite number and a weight that is a number (an
  infinite one included), the score is a finite number between 34 and 127.
\<close>

theorem scoreBoard_range:
  assumes w: "weight \<noteq> NaN" and v: "volume b = Fin v"
  shows "\<exists>s. scoreBoard b weight wave ability = Fin s \<and> 34 \<le> s \<and> s \<le> 127"
  using scoreBoard_between [OF w v, of wave ability] by (simp add: between_def)

theorem scoreBoard_range_witness:
  "Fin 80 \<noteq> NaN \<and> volume pyzel_ghost = fl 32.8 \<and> fl 32.8 = Fin (2308094809027379 / 70368744177664)
   \<and> (\<exists>s. scoreBoard pyzel_ghost (Fin 80) small_beach beginner = Fin s \<and> 34 \<le> s \<and> s \<le> 127)"
proof -
  have w: "Fin 80 \<noteq> NaN"
    by simp
  have e: "fl 32.8 = Fin (2308094809027379 / 70368744177664)"
    by (simp add: fl_eval)
  have v0: "volume pyzel_ghost = fl 32.8"
    by (simp add: pyzel_ghost_def)
  have v: "volume pyzel_ghost = Fin (2308094809027379 / 70368744177664)"
    by (simp only: v0 e)
  from w v0 e scoreBoard_range [OF w v, of small_beach beginner] show ?thesis
    by (intro conjI)
qed

section \<open>Properties of the sort\<close>

lemma with_score_fields:
  "shaper (with_score b s) = shaper b" "waveTypes (with_score b s) = waveTypes b"
  "abilities (with_score b s) = abilities b" "volume (with_score b s) = volume b"
  "sponsored (with_score b s) = sponsored b" "score (with_score b s) = s"
  "recommendedWeight (with_score b s) = recommendedWeight b"
  "board_id (with_score b s) = board_id b"
  "Board.truncate (with_score b s) = b"
  by (simp_all add: with_score_def Board.defs ScoredBoard.defs)

lemma Array_sort_Nil: "Array_sort cmp [] = []"
  by (simp add: Array_sort_def)

lemma Array_sort_Cons: "Array_sort cmp (x # xs) = sort_insert cmp x (Array_sort cmp xs)"
  by (simp add: Array_sort_def)

lemma mset_sort_insert: "mset (sort_insert cmp x ys) = add_mset x (mset ys)"
  by (induction ys) simp_all

lemma mset_Array_sort: "mset (Array_sort cmp xs) = mset xs"
  by (induction xs) (simp_all add: Array_sort_Nil Array_sort_Cons mset_sort_insert)

lemma set_Array_sort: "set (Array_sort cmp xs) = set xs"
  using mset_Array_sort [of cmp xs] by (metis set_mset_mset)



lemma sort_insert_two_groups:
  assumes "\<And>y. y \<in> set as \<Longrightarrow> P y" and "\<And>y. y \<in> set bs \<Longrightarrow> \<not> P y"
    and "\<And>y. js_gt (cmp x y) (Fin 0) = (P y \<and> \<not> P x)"
  shows "sort_insert cmp x (as @ bs) = (if P x then x # as @ bs else as @ x # bs)"
  using assms
proof (induction as)
  case Nil
  then show ?case by (cases bs) simp_all
next
  case (Cons a as)
  then show ?case by (cases as) auto
qed

lemma Array_sort_two_groups:
  assumes "\<And>x y. js_gt (cmp x y) (Fin 0) = (P y \<and> \<not> P x)"
  shows "Array_sort cmp xs = filter P xs @ filter (\<lambda>x. \<not> P x) xs"
proof (induction xs)
  case Nil
  show ?case by (simp add: Array_sort_Nil)
next
  case (Cons x xs)
  have "sort_insert cmp x (filter P xs @ filter (\<lambda>x. \<not> P x) xs)
        = (if P x then x # filter P xs @ filter (\<lambda>x. \<not> P x) xs
           else filter P xs @ x # filter (\<lambda>x. \<not> P x) xs)"
    by (rule sort_insert_two_groups) (simp_all add: assms)
  then show ?case
    by (simp add: Array_sort_Cons Cons.IH)
qed

lemma sponsored_cmp:
  "js_gt (js_sub (Number_of_bool (truthy (sponsored b))) (Number_of_bool (truthy (sponsored a)))) (Fin 0)
     = (truthy (sponsored b) \<and> \<not> truthy (sponsored a))"
  by (simp add: Number_of_bool_def js_gt_def js_sub_def fl_eval)

text \<open>
  C8. Under the sort mode \<open>sponsored\<close> the result is the sponsored boards of the filtered
  list, in their order there, followed by the other boards, in their order there.
\<close>

theorem sponsored_first_order:
  "filtered enr wave ability minV maxV sort_sponsored selectedShapers =
     filter (\<lambda>b. sponsored b = Some True) (filtered_list enr wave ability minV maxV selectedShapers)
     @ filter (\<lambda>b. sponsored b \<noteq> Some True) (filtered_list enr wave ability minV maxV selectedShapers)"
proof -
  have "Array_sort (\<lambda>a b. js_sub (Number_of_bool (truthy (sponsored b)))
                                  (Number_of_bool (truthy (sponsored a)))) xs
        = filter (\<lambda>b. truthy (sponsored b)) xs @ filter (\<lambda>b. \<not> truthy (sponsored b)) xs"
    for xs :: "ScoredBoard list"
    by (rule Array_sort_two_groups) (rule sponsored_cmp)
  then show ?thesis
    by (simp add: filtered_def truthy_def Let_def)
qed

lemma demo_filtered_list:
  "map board_id (filtered_list (enriched (Some demo_catalog) (Fin 80) mellow_point intermediate)
       mellow_point intermediate (fl 30.4) (fl 37.6) [])
     = [''js-monsta-2024'', ''ci-happy-everyday'', ''js-black-box'']"
  by (simp add: filtered_list_def enriched_def demo_catalog_def with_score_fields
      js_monsta_2024_def ci_happy_everyday_def pyzel_ghost_def js_black_box_def
      js_ge_def js_sub_def fl_eval)

lemma demo_sponsored_first:
  "map board_id
      (filter (\<lambda>b. sponsored b = Some True)
         (filtered_list (enriched (Some demo_catalog) (Fin 80) mellow_point intermediate)
            mellow_point intermediate (fl 30.4) (fl 37.6) [])
       @ filter (\<lambda>b. sponsored b \<noteq> Some True)
         (filtered_list (enriched (Some demo_catalog) (Fin 80) mellow_point intermediate)
            mellow_point intermediate (fl 30.4) (fl 37.6) []))
     = [''ci-happy-everyday'', ''js-black-box'', ''js-monsta-2024'']"
  by (simp add: filtered_list_def enriched_def demo_catalog_def with_score_fields
      js_monsta_2024_def ci_happy_everyday_def pyzel_ghost_def js_black_box_def
      js_ge_def js_sub_def fl_eval)

theorem sponsored_first_order_witness:
  "map board_id (filtered (enriched (Some demo_catalog) (Fin 80) mellow_point intermediate)
       mellow_point intermediate (fl 30.4) (fl 37.6) sort_sponsored [])
   = [''ci-happy-everyday'', ''js-black-box'', ''js-monsta-2024'']
   \<and> map board_id (filtered_list (enriched (Some demo_catalog) (Fin 80) mellow_point intermediate)
       mellow_point intermediate (fl 30.4) (fl 37.6) [])
   = [''js-monsta-2024'', ''ci-happy-everyday'', ''js-black-box'']"
  using sponsored_first_order [of "enriched (Some demo_catalog) (Fin 80) mellow_point intermediate"
      mellow_point intermediate "fl 30.4" "fl 37.6" "[]"] demo_filtered_list demo_sponsored_first
  by (simp only:)

section \<open>Properties of the grouping and of the top picks\<close>
















lemma topPicksByShaper_alt:
  "topPicksByShaper F =
     Array_sort (\<lambda>a b. js_sub (score (board b)) (score (board a))) (map mk_top (group_by_shaper F))"
  by (simp add: topPicksByShaper_def mk_top_def Let_def)






section \<open>Properties of the ranking\<close>

lemma set_filtered:
  "set (filtered enr wave ability minV maxV sortMode sel) =
     set (filtered_list enr wave ability minV maxV sel)"
  by (cases sortMode) (simp_all add: filtered_def Let_def set_Array_sort)

lemma set_filtered_list:
  "set (filtered_list enr wave ability minV maxV sel) =
     {b \<in> set enr. wave_str wave \<in> set (waveTypes b) \<and> ability_str ability \<in> set (abilities b)
        \<and> js_ge (volume b) (js_sub minV (Fin 6)) \<and> js_le (volume b) (js_add maxV (Fin 6))
        \<and> (sel = [] \<or> shaper b \<in> set sel)}"
  by (auto simp: filtered_list_def Let_def)

lemma fst_rankCatalog:
  "fst (rankCatalog boards weight wave ability sortMode sel) =
     filtered (enriched boards weight wave ability) wave ability
       (fst (heuristicVolume weight ability)) (snd (heuristicVolume weight ability)) sortMode sel"
  by (simp add: rankCatalog_def case_prod_beta Let_def)


lemma scoreBoard_with_score:
  "scoreBoard (with_score b s) weight wave ability = scoreBoard b weight wave ability"
  by (simp add: scoreBoard_def with_score_fields)

lemma all_scores:
  assumes "sb \<in> set (fst (rankCatalog boards weight wave ability sortMode sel))"
  shows "score sb = scoreBoard sb weight wave ability"
proof -
  from assms obtain b where "sb = with_score b (scoreBoard b weight wave ability)"
    unfolding fst_rankCatalog set_filtered set_filtered_list
    by (auto simp: enriched_def)
  then show ?thesis
    by (simp add: scoreBoard_with_score with_score_fields)
qed







lemma tie_fields:
  "board_id js_monsta_2024 = ''js-monsta-2024''" "shaper js_monsta_2024 = ''JS Industries''"
  "waveTypes js_monsta_2024 = [''small_beach'', ''mellow_point'', ''punchy_reef'']"
  "abilities js_monsta_2024 = [''intermediate'', ''advanced'']"
  "volume js_monsta_2024 = fl 31.5" "sponsored js_monsta_2024 = None"
  "recommendedWeight js_monsta_2024 = (Fin 65, Fin 95)"
  "board_id ci_high = ''ci-high''" "shaper ci_high = ''Channel Islands''"
  "waveTypes ci_high = [''small_beach'', ''mellow_point'']"
  "abilities ci_high = [''beginner'', ''intermediate'']"
  "volume ci_high = fl 37.7" "sponsored ci_high = Some True"
  "recommendedWeight ci_high = (Fin 55, Fin 90)"
  "board_id ci_happy_everyday = ''ci-happy-everyday''" "shaper ci_happy_everyday = ''Channel Islands''"
  "waveTypes ci_happy_everyday = [''small_beach'', ''mellow_point'']"
  "abilities ci_happy_everyday = [''beginner'', ''intermediate'']"
  "volume ci_happy_everyday = fl 30.3" "sponsored ci_happy_everyday = Some True"
  "recommendedWeight ci_happy_everyday = (Fin 55, Fin 90)"
  "board_id pyzel_ghost = ''pyzel-ghost''" "shaper pyzel_ghost = ''Pyzel''"
  "waveTypes pyzel_ghost = [''punchy_reef'', ''overhead'']"
  "abilities pyzel_ghost = [''intermediate'', ''advanced'']"
  "volume pyzel_ghost = fl 32.8" "sponsored pyzel_ghost = None"
  "recommendedWeight pyzel_ghost = (Fin 70, Fin 105)"
  "board_id js_black_box = ''js-black-box''" "shaper js_black_box = ''JS Industries''"
  "waveTypes js_black_box = [''small_beach'', ''mellow_point'', ''punchy_reef'']"
  "abilities js_black_box = [''intermediate'', ''advanced'']"
  "volume js_black_box = Fin 34" "sponsored js_black_box = Some True"
  "recommendedWeight js_black_box = (Fin 65, Fin 95)"
  by (simp_all add: js_monsta_2024_def ci_high_def ci_happy_everyday_def pyzel_ghost_def
      js_black_box_def)

lemma tie_scores:
  "scoreBoard js_monsta_2024 (Fin 80) mellow_point intermediate = Fin (481 / 4)"
  "scoreBoard ci_high (Fin 80) mellow_point intermediate = Fin (2136570995094323 / 17592186044416)"
  "scoreBoard ci_happy_everyday (Fin 80) mellow_point intermediate = fl 121.45"
  by (simp_all add: scoreBoard_spec spec_scoreBoard_def points_def targetV_80_intermediate
      tie_fields js_sub_def Math_min_def fl_eval)

lemma tie_enriched:
  "enriched (Some tie_catalog) (Fin 80) mellow_point intermediate =
     [with_score js_monsta_2024 (Fin (481 / 4)),
      with_score ci_high (Fin (2136570995094323 / 17592186044416)),
      with_score ci_happy_everyday (fl 121.45),
      with_score pyzel_ghost (scoreBoard pyzel_ghost (Fin 80) mellow_point intermediate),
      with_score js_black_box (Fin 127)]"
  by (simp add: enriched_def tie_catalog_def tie_scores score_black_box)

lemma tie_filtered:
  "filtered (enriched (Some tie_catalog) (Fin 80) mellow_point intermediate) mellow_point intermediate
       (fl 30.4) (fl 37.6) sort_sponsored []
   = [with_score ci_high (Fin (2136570995094323 / 17592186044416)),
      with_score ci_happy_everyday (fl 121.45),
      with_score js_black_box (Fin 127),
      with_score js_monsta_2024 (Fin (481 / 4))]"
  by (simp add: tie_enriched filtered_def filtered_list_def Array_sort_def with_score_fields
      tie_fields truthy_def Number_of_bool_def js_ge_def js_gt_def js_sub_def fl_eval)

lemma tie_tops:
  "topPicksByShaper
     [with_score ci_high (Fin (2136570995094323 / 17592186044416)),
      with_score ci_happy_everyday (fl 121.45),
      with_score js_black_box (Fin 127),
      with_score js_monsta_2024 (Fin (481 / 4))]
   = [\<lparr>brand = ''JS Industries'', board = with_score js_black_box (Fin 127)\<rparr>,
      \<lparr>brand = ''Channel Islands'', board = with_score ci_happy_everyday (fl 121.45)\<rparr>]"
  by (simp add: topPicksByShaper_def group_by_shaper_def group_step_def Map_has_def Map_set_def
      Map_push_def Array_sort_def with_score_fields tie_fields js_gt_def js_sub_def fl_eval)

lemma tie_rank:
  "rankCatalog (Some tie_catalog) (Fin 80) mellow_point intermediate sort_sponsored [] =
     ([with_score ci_high (Fin (2136570995094323 / 17592186044416)),
       with_score ci_happy_everyday (fl 121.45),
       with_score js_black_box (Fin 127),
       with_score js_monsta_2024 (Fin (481 / 4))],
      [\<lparr>brand = ''JS Industries'', board = with_score js_black_box (Fin 127)\<rparr>,
       \<lparr>brand = ''Channel Islands'', board = with_score ci_happy_everyday (fl 121.45)\<rparr>])"
  by (simp only: rankCatalog_def hv_80_intermediate prod.case Let_def tie_filtered tie_tops)

lemma tie_all:
  "map (\<lambda>b. (board_id b, score b))
     (fst (rankCatalog (Some tie_catalog) (Fin 80) mellow_point intermediate sort_sponsored []))
   = [(''ci-high'', Fin (2136570995094323 / 17592186044416)),
      (''ci-happy-everyday'', fl 121.45), (''js-black-box'', Fin 127),
      (''js-monsta-2024'', Fin (481 / 4))]"
  by (simp add: tie_rank with_score_fields tie_fields)

lemma tie_top_picks:
  "map (\<lambda>t. (brand t, board_id (board t)))
     (snd (rankCatalog (Some tie_catalog) (Fin 80) mellow_point intermediate sort_sponsored []))
   = [(''JS Industries'', ''js-black-box''), (''Channel Islands'', ''ci-happy-everyday'')]"
  by (simp add: tie_rank with_score_fields tie_fields)



text \<open>
  Without the condition on the volumes the property fails. For a weight of \<open>1e308\<close> both
  bounds of the range are infinite, a board of infinite volume passes the filter, and its
  score is \<open>NaN\<close>, which no comparison orders.
\<close>

lemma infinite_volume_score:
  "heuristicVolume heavy beginner = (PInf, PInf)"
  "map (\<lambda>b. (board_id b, score b))
     (fst (rankCatalog (Some [ci_unbounded]) heavy small_beach beginner sort_best []))
   = [(''ci-unbounded'', NaN)]"
  "\<not> js_le NaN NaN"
proof -
  have f: "board_id ci_unbounded = ''ci-unbounded''" "volume ci_unbounded = PInf"
    "waveTypes ci_unbounded = [''small_beach'', ''mellow_point'']"
    "abilities ci_unbounded = [''beginner'', ''intermediate'']"
    by (simp_all add: ci_unbounded_def ci_happy_everyday_def)
  show h: "heuristicVolume heavy beginner = (PInf, PInf)"
    by (simp add: heavy_def heuristicVolume_def round1_def fl_eval)
  have s: "scoreBoard ci_unbounded heavy small_beach beginner = NaN"
    by (simp add: scoreBoard_def h f js_sub_def Math_min_def case_prod_beta)
  show "map (\<lambda>b. (board_id b, score b))
     (fst (rankCatalog (Some [ci_unbounded]) heavy small_beach beginner sort_best []))
   = [(''ci-unbounded'', NaN)]"
    by (simp add: rankCatalog_def h enriched_def s filtered_def filtered_list_def Array_sort_def
        with_score_fields f js_ge_def js_sub_def Let_def)
  show "\<not> js_le NaN NaN"
    by simp
qed

section \<open>Properties of the ranking on the store\<close>

lemma new_array_props:
  assumes "new_array xs h = (a, h')"
  shows "a = next_addr h" and "cells h' = (cells h)(a := xs)" and "next_addr h' = Suc (next_addr h)"
  using assms by (auto simp: new_array_def)

lemma filtered_h_correct:
  assumes e: "enr < next_addr h"
    and r: "filtered_h enr wave ability minV maxV sortMode sel h = (flt, h')"
  shows "cells h' flt = filtered (cells h enr) wave ability minV maxV sortMode sel"
    and "next_addr h \<le> flt" and "flt < next_addr h'"
    and "\<And>x. x < next_addr h \<Longrightarrow> cells h' x = cells h x"
proof -
  obtain l1 h1 where 1: "filter_h (\<lambda>b. wave_str wave \<in> set (waveTypes b)) enr h = (l1, h1)"
    by (cases "filter_h (\<lambda>b. wave_str wave \<in> set (waveTypes b)) enr h")
  obtain l2 h2 where 2: "filter_h (\<lambda>b. ability_str ability \<in> set (abilities b)) l1 h1 = (l2, h2)"
    by (cases "filter_h (\<lambda>b. ability_str ability \<in> set (abilities b)) l1 h1")
  obtain l3 h3 where 3: "filter_h (\<lambda>b. js_ge (volume b) (js_sub minV (Fin 6))
                          \<and> js_le (volume b) (js_add maxV (Fin 6))) l2 h2 = (l3, h3)"
    by (cases "filter_h (\<lambda>b. js_ge (volume b) (js_sub minV (Fin 6))
                          \<and> js_le (volume b) (js_add maxV (Fin 6))) l2 h2")
  obtain list h4 where 4: "(if sel \<noteq> []
            then filter_h (\<lambda>b. shaper b \<in> set sel) l3 h3 else (l3, h3)) = (list, h4)"
    by (cases "(if sel \<noteq> [] then filter_h (\<lambda>b. shaper b \<in> set sel) l3 h3 else (l3, h3))")
  note p1 = new_array_props [OF 1 [unfolded filter_h_def]]
  note p2 = new_array_props [OF 2 [unfolded filter_h_def]]
  note p3 = new_array_props [OF 3 [unfolded filter_h_def]]
  have c3: "cells h3 l3 = filter (\<lambda>b. js_ge (volume b) (js_sub minV (Fin 6))
                          \<and> js_le (volume b) (js_add maxV (Fin 6)))
              (filter (\<lambda>b. ability_str ability \<in> set (abilities b))
                (filter (\<lambda>b. wave_str wave \<in> set (waveTypes b)) (cells h enr)))"
    using e by (simp add: p1 p2 p3)
  have old3: "\<And>x. x < next_addr h \<Longrightarrow> cells h3 x = cells h x"
    by (simp add: p1 p2 p3)
  have n3: "next_addr h \<le> l3" "l3 < next_addr h3" "next_addr h \<le> next_addr h3"
    by (simp_all add: p1 p2 p3)
  have c4: "cells h4 list = filtered_list (cells h enr) wave ability minV maxV sel"
    and old4: "\<And>x. x < next_addr h \<Longrightarrow> cells h4 x = cells h x"
    and n4: "next_addr h \<le> list" "list < next_addr h4"
  proof -
    show "cells h4 list = filtered_list (cells h enr) wave ability minV maxV sel"
      using 4 c3 
      by (auto simp: filtered_list_def Let_def filter_h_def new_array_def split: if_splits)
    show "\<And>x. x < next_addr h \<Longrightarrow> cells h4 x = cells h x"
      using 4 old3 n3
      by (auto simp: filter_h_def new_array_def split: if_splits)
    show "next_addr h \<le> list" "list < next_addr h4"
      using 4 n3 by (auto simp: filter_h_def new_array_def split: if_splits)
  qed
  have s: "sort_h cmp list h4 = (flt, h') \<Longrightarrow>
      cells h' flt = Array_sort cmp (cells h4 list) \<and> flt = list \<and> next_addr h' = next_addr h4
      \<and> (\<forall>x. x \<noteq> list \<longrightarrow> cells h' x = cells h4 x)" for cmp
    by (auto simp: sort_h_def)
  have r': "(case sortMode of
        sort_volume \<Rightarrow>
          (let target = js_div (js_add minV maxV) (Fin 2)
           in sort_h (\<lambda>a b. js_sub (Math_abs (js_sub (volume a) target))
                               (Math_abs (js_sub (volume b) target))) list h4)
      | sort_sponsored \<Rightarrow>
          sort_h (\<lambda>a b. js_sub (Number_of_bool (truthy (sponsored b)))
                           (Number_of_bool (truthy (sponsored a)))) list h4
      | sort_best \<Rightarrow> sort_h (\<lambda>a b. js_sub (score b) (score a)) list h4) = (flt, h')"
    using r by (simp add: filtered_h_def 1 2 3 4)
  show "cells h' flt = filtered (cells h enr) wave ability minV maxV sortMode sel"
    using r' c4 by (cases sortMode) (auto simp: filtered_def Let_def dest!: s)
  show "next_addr h \<le> flt" "flt < next_addr h'"
    using r' n4 by (cases sortMode; auto simp: Let_def dest!: s)+
  show "cells h' x = cells h x" if "x < next_addr h" for x
  proof -
    have "x \<noteq> list" using that n4 by simp
    then have "cells h' x = cells h4 x"
      using r' by (cases sortMode; auto simp: Let_def dest!: s)
    then show ?thesis using old4 that by simp
  qed
qed

lemma groups_at_keys: "groups_at n m h G \<Longrightarrow> map fst m = map fst G"
  unfolding groups_at_def
  by (induction m G rule: list_induct2') auto

lemma Map_push_absent: "k \<notin> set (map fst G) \<Longrightarrow> Map_push G k v = G"
  by (induction G) (auto simp: Map_push_def)

lemma map_of_distinct_addr:
  assumes "distinct (map fst m)" "distinct (map snd m)" "map_of m k = Some a" "(k', a') \<in> set m"
  shows "(a' = a) = (k' = k)"
proof
  assume "a' = a"
  moreover have "(k, a) \<in> set m" using assms(3) by (rule map_of_SomeD)
  ultimately have "(k, a) \<in> set m" "(k', a) \<in> set m" "inj_on snd (set m)"
    using assms(2,4) by (simp_all add: distinct_map)
  then have "(k', a) = (k, a)"
    using inj_onD [of snd "set m" "(k', a)" "(k, a)"] by simp
  then show "k' = k" by simp
next
  assume "k' = k"
  then show "a' = a"
    using map_of_is_SomeI [OF assms(1), of k' a'] assms(3,4) by simp
qed

lemma group_step_h_correct:
  assumes inv: "groups_at n m h G"
    and st: "group_step_h (m, h) b = (m', h')"
  shows "groups_at n m' h' (group_step G b)"
    and "\<And>x. x < n \<Longrightarrow> cells h' x = cells h x"
    and "next_addr h \<le> next_addr h'"
proof -
  let ?k = "shaper b"
  have keys: "map fst m = map fst G" using inv by (rule groups_at_keys)
  have rel: "list_all2 (\<lambda>ka kg. fst ka = fst kg \<and> cells h (snd ka) = snd kg) m G"
    and dk: "distinct (map fst m)" and da: "distinct (map snd m)"
    and rng: "\<And>a. a \<in> set (map snd m) \<Longrightarrow> n \<le> a \<and> a < next_addr h"
    and n: "n \<le> next_addr h"
    using inv by (auto simp: groups_at_def list_all_iff)
  show "groups_at n m' h' (group_step G b)"
    and "\<And>x. x < n \<Longrightarrow> cells h' x = cells h x"
    and "next_addr h \<le> next_addr h'"
  proof (atomize (full), cases "Map_has m ?k")
    case True
    then obtain a where a: "map_of m ?k = Some a"
      by (cases "map_of m ?k") (auto simp: Map_has_def map_of_eq_None_iff)
    have m': "m' = m" and h': "h' = push_h a b h"
      using st True a by (simp_all add: group_step_h_def)
    have ain: "a \<in> set (map snd m)"
      using map_of_SomeD [OF a] by force
    have G': "group_step G b = Map_push G ?k b"
      using True keys by (simp add: group_step_def Map_has_def)
    have "list_all2 (\<lambda>ka kg. fst ka = fst kg \<and> cells h' (snd ka) = snd kg) m
            (map (\<lambda>(k', arr). if k' = ?k then (k', arr @ [b]) else (k', arr)) G)"
      unfolding list_all2_map2
    proof (rule list.rel_mono_strong [OF rel])
      fix ka kg assume m: "ka \<in> set m" and p: "fst ka = fst kg \<and> cells h (snd ka) = snd kg"
      have "(snd ka = a) = (fst ka = ?k)"
        using map_of_distinct_addr [OF dk da a, of "fst ka" "snd ka"] m by simp
      then show "fst ka = fst (case kg of (k', arr) \<Rightarrow> if k' = ?k then (k', arr @ [b]) else (k', arr))
          \<and> cells h' (snd ka) = snd (case kg of (k', arr) \<Rightarrow> if k' = ?k then (k', arr @ [b]) else (k', arr))"
        using p by (cases kg) (auto simp: h' push_h_def)
    qed
    then have 1: "groups_at n m' h' (group_step G b)"
      using dk da rng n
      by (auto simp: groups_at_def m' G' Map_push_def h' push_h_def list_all_iff)
    have 2: "cells h' x = cells h x" if "x < n" for x
      using that rng [OF ain] by (auto simp: h' push_h_def)
    have 3: "next_addr h \<le> next_addr h'"
      by (simp add: h' push_h_def)
    from 1 2 3 show "groups_at n m' h' (group_step G b) \<and>
      (\<forall>x. x < n \<longrightarrow> cells h' x = cells h x) \<and> next_addr h \<le> next_addr h'"
      by blast
  next
    case False
    let ?a = "next_addr h"
    have nk: "?k \<notin> set (map fst m)" using False by (simp add: Map_has_def)
    have fresh: "?a \<notin> set (map snd m)" using rng by auto
    have m': "m' = m @ [(?k, ?a)]"
      using st False by (simp add: group_step_h_def new_array_def Map_set_def)
    have "map_of m ?k = None"
      using nk by (simp add: map_of_eq_None_iff)
    then have mo: "([?k \<mapsto> ?a] ++ map_of m) ?k = Some ?a"
      by (simp add: map_add_def)
    have h': "h' = h\<lparr>cells := (cells h)(?a := [b]), next_addr := Suc ?a\<rparr>"
      using st False mo by (auto simp: group_step_h_def new_array_def Map_set_def push_h_def)
    have G': "group_step G b = G @ [(?k, [b])]"
      using False keys nk
      by (simp add: group_step_def Map_has_def Map_set_def Map_push_def)
         (simp add: Map_push_absent [unfolded Map_push_def])
    have "list_all2 (\<lambda>ka kg. fst ka = fst kg \<and> cells h' (snd ka) = snd kg) m G"
    proof (rule list.rel_mono_strong [OF rel])
      fix ka kg assume m: "ka \<in> set m" and p: "fst ka = fst kg \<and> cells h (snd ka) = snd kg"
      have "snd ka \<in> set (map snd m)" using m by simp
      then have "snd ka \<noteq> ?a" using fresh by metis
      then show "fst ka = fst kg \<and> cells h' (snd ka) = snd kg"
        using p by (simp add: h')
    qed
    then have "list_all2 (\<lambda>ka kg. fst ka = fst kg \<and> cells h' (snd ka) = snd kg)
                 (m @ [(?k, ?a)]) (G @ [(?k, [b])])"
      by (rule list_all2_appendI) (simp add: h')
    then have 1: "groups_at n m' h' (group_step G b)"
      using dk da rng n nk fresh
      by (auto simp: groups_at_def m' G' h' list_all_iff less_Suc_eq)
    have 2: "cells h' x = cells h x" if "x < n" for x
      using that n by (auto simp: h')
    have 3: "next_addr h \<le> next_addr h'"
      by (simp add: h')
    from 1 2 3 show "groups_at n m' h' (group_step G b) \<and>
      (\<forall>x. x < n \<longrightarrow> cells h' x = cells h x) \<and> next_addr h \<le> next_addr h'"
      by blast
  qed
qed

lemma group_fold_h_correct:
  assumes "groups_at n m h G" and "foldl group_step_h (m, h) xs = (m', h')"
  shows "groups_at n m' h' (foldl group_step G xs)
       \<and> (\<forall>x. x < n \<longrightarrow> cells h' x = cells h x) \<and> next_addr h \<le> next_addr h'"
  using assms
proof (induction xs arbitrary: m h G)
  case Nil
  then show ?case by simp
next
  case (Cons b xs)
  obtain m1 h1 where s: "group_step_h (m, h) b = (m1, h1)"
    by (cases "group_step_h (m, h) b")
  note st = group_step_h_correct [OF Cons.prems(1) s]
  have "foldl group_step_h (m1, h1) xs = (m', h')"
    using Cons.prems(2) s by simp
  from Cons.IH [OF st(1) this] st(2,3) show ?case
    by auto
qed

lemma tops_h_correct:
  assumes "list_all2 (\<lambda>ka kg. fst ka = fst kg \<and> cells h (snd ka) = snd kg) m G"
    and "distinct (map snd m)" and "tops_h m h = (ts, h')"
  shows "ts = map mk_top G \<and> (\<forall>x. x \<notin> set (map snd m) \<longrightarrow> cells h' x = cells h x)
       \<and> next_addr h' = next_addr h"
  using assms
proof (induction m arbitrary: G h ts h')
  case Nil
  then show ?case by simp
next
  case (Cons ka m)
  obtain k a where ka: "ka = (k, a)" by (cases ka)
  from Cons.prems(1) obtain arr G' where G: "G = (k, arr) # G'" and arr: "cells h a = arr"
    and rest: "list_all2 (\<lambda>ka kg. fst ka = fst kg \<and> cells h (snd ka) = snd kg) m G'"
    unfolding ka by (cases G) auto
  let ?h1 = "h\<lparr>cells := (cells h)(a := Array_sort (\<lambda>a b. js_sub (score b) (score a)) (cells h a))\<rparr>"
  obtain ts' h2 where t: "tops_h m ?h1 = (ts', h2)"
    by (cases "tops_h m ?h1")
  have na: "a \<notin> set (map snd m)" and dm: "distinct (map snd m)"
    using Cons.prems(2) by (simp_all add: ka)
  have rest1: "list_all2 (\<lambda>ka kg. fst ka = fst kg \<and> cells ?h1 (snd ka) = snd kg) m G'"
  proof (rule list.rel_mono_strong [OF rest])
    fix x y assume "x \<in> set m" and p: "fst x = fst y \<and> cells h (snd x) = snd y"
    then have "snd x \<in> set (map snd m)" by simp
    then have "snd x \<noteq> a" using na by metis
    then show "fst x = fst y \<and> cells ?h1 (snd x) = snd y" using p by simp
  qed
  note ih = Cons.IH [OF rest1 dm t]
  have ts: "ts = \<lparr>brand = k, board = hd (cells ?h1 a)\<rparr> # ts'" and h': "h' = h2"
    using Cons.prems(3) t by (auto simp: ka sort_h_def)
  show ?case
    using ih by (auto simp: ts h' G arr mk_top_def ka)
qed

lemma topPicksByShaper_h_correct:
  assumes "topPicksByShaper_h flt h = (tops, h')"
  shows "tops = topPicksByShaper (cells h flt)"
    and "\<And>x. x < next_addr h \<Longrightarrow> cells h' x = cells h x"
    and "next_addr h \<le> next_addr h'"
proof -
  obtain m h1 where f: "foldl group_step_h ([], h) (cells h flt) = (m, h1)"
    by (cases "foldl group_step_h ([], h) (cells h flt)")
  obtain ts h2 where t: "tops_h m h1 = (ts, h2)"
    by (cases "tops_h m h1")
  have r: "tops = Array_sort (\<lambda>a b. js_sub (score (board b)) (score (board a))) ts" and h2: "h' = h2"
    using assms f t by (auto simp: topPicksByShaper_h_def)
  have "groups_at (next_addr h) [] h []"
    by (simp add: groups_at_def)
  from group_fold_h_correct [OF this f]
  have g: "groups_at (next_addr h) m h1 (group_by_shaper (cells h flt))"
    and old1: "\<And>x. x < next_addr h \<Longrightarrow> cells h1 x = cells h x"
    and n1: "next_addr h \<le> next_addr h1"
    by (simp_all add: group_by_shaper_def)
  from g have rel: "list_all2 (\<lambda>ka kg. fst ka = fst kg \<and> cells h1 (snd ka) = snd kg) m
                      (group_by_shaper (cells h flt))"
    and d: "distinct (map snd m)"
    and rng: "\<And>a. a \<in> set (map snd m) \<Longrightarrow> next_addr h \<le> a"
    by (auto simp: groups_at_def list_all_iff)
  from tops_h_correct [OF rel d t]
  have ts: "ts = map mk_top (group_by_shaper (cells h flt))"
    and old2: "\<And>x. x \<notin> set (map snd m) \<Longrightarrow> cells h2 x = cells h1 x"
    and n2: "next_addr h2 = next_addr h1"
    by simp_all
  show "tops = topPicksByShaper (cells h flt)"
    by (simp add: r ts topPicksByShaper_alt)
  show "cells h' x = cells h x" if "x < next_addr h" for x
  proof -
    have "x \<notin> set (map snd m)" using rng that by fastforce
    then show ?thesis using old1 old2 that h2 by simp
  qed
  show "next_addr h \<le> next_addr h'"
    using n1 n2 h2 by simp
qed

lemma rankCatalog_h_correct:
  assumes "rankCatalog_h boards weight wave ability sortMode sel h = (r, h')"
  shows "r = rankCatalog boards weight wave ability sortMode sel"
    and "\<And>x. x < next_addr h \<Longrightarrow> cells h' x = cells h x"
    and "next_addr h \<le> next_addr h'"
proof -
  obtain minV maxV where hv: "heuristicVolume weight ability = (minV, maxV)"
    by (cases "heuristicVolume weight ability")
  let ?h1 = "h\<lparr>cells := (cells h)(next_addr h := enriched boards weight wave ability),
                next_addr := Suc (next_addr h)\<rparr>"
  have e: "enriched_h boards weight wave ability h = (next_addr h, ?h1)"
    by (simp add: enriched_h_def new_array_def)
  obtain flt h2 where f: "filtered_h (next_addr h) wave ability minV maxV sortMode sel ?h1 = (flt, h2)"
    by (cases "filtered_h (next_addr h) wave ability minV maxV sortMode sel ?h1")
  obtain tops h3 where t: "topPicksByShaper_h flt h2 = (tops, h3)"
    by (cases "topPicksByShaper_h flt h2")
  have r: "r = (cells h3 flt, tops)" and h': "h' = h3"
    using assms by (auto simp: rankCatalog_h_def hv e f t)
  have "next_addr h < next_addr ?h1" by simp
  note fc = filtered_h_correct [OF this f]
  note tc = topPicksByShaper_h_correct [OF t]
  have 1: "cells h2 flt = filtered (enriched boards weight wave ability) wave ability minV maxV sortMode sel"
    using fc(1) by simp
  have 2: "cells h3 flt = cells h2 flt"
    using tc(2) fc(3) by simp
  show "r = rankCatalog boards weight wave ability sortMode sel"
    by (simp add: r rankCatalog_def hv Let_def tc(1) 1 2)
  show "cells h' x = cells h x" if "x < next_addr h" for x
  proof -
    have "x < next_addr ?h1" using that by simp
    then have "cells h2 x = cells ?h1 x" by (rule fc(4))
    moreover have "x < next_addr h2" using that fc(2,3) by simp
    ultimately show ?thesis using tc(2) [of x] that by (simp add: h')
  qed
  show "next_addr h \<le> next_addr h'"
    using fc(2,3) tc(3) by (simp add: h')
qed

text \<open>
  C9. The ranking, run on the store and run again on the store the first run leaves,
  gives the same two views, in the same order; they are the views computed without a
  store, and no array that was in use before is changed. The score of every board of the
  view \<open>all\<close> is what \<open>scoreBoard\<close> gives when called on that board again: \<open>scoreBoard\<close>
  reads its four arguments and nothing else.
\<close>

theorem ranking_deterministic:
  assumes run1: "rankCatalog_h boards weight wave ability sortMode sel h = (r1, h1)"
    and run2: "rankCatalog_h boards weight wave ability sortMode sel h1 = (r2, h2)"
  shows "r2 = r1 \<and> r1 = rankCatalog boards weight wave ability sortMode sel
       \<and> (\<forall>x. x < next_addr h \<longrightarrow> cells h2 x = cells h x)
       \<and> (\<forall>sb \<in> set (fst r1). score sb = scoreBoard sb weight wave ability)"
proof -
  note a = rankCatalog_h_correct [OF run1]
  note b = rankCatalog_h_correct [OF run2]
  have "cells h2 x = cells h x" if "x < next_addr h" for x
    using that a(2) [of x] a(3) b(2) [of x] by simp
  moreover have "score sb = scoreBoard sb weight wave ability" if "sb \<in> set (fst r1)" for sb
    using that unfolding a(1) by (rule all_scores)
  ultimately show ?thesis
    using a(1) b(1) by simp
qed

theorem ranking_deterministic_witness:
  "\<exists>r1 h1 r2 h2.
     rankCatalog_h (Some tie_catalog) (Fin 80) mellow_point intermediate sort_sponsored [] empty_heap
       = (r1, h1)
     \<and> rankCatalog_h (Some tie_catalog) (Fin 80) mellow_point intermediate sort_sponsored [] h1
       = (r2, h2)
     \<and> r2 = r1
     \<and> map (\<lambda>b. (board_id b, score b)) (fst r1)
         = [(''ci-high'', Fin (2136570995094323 / 17592186044416)),
            (''ci-happy-everyday'', fl 121.45), (''js-black-box'', Fin 127),
            (''js-monsta-2024'', Fin (481 / 4))]
     \<and> map (\<lambda>t. (brand t, board_id (board t))) (snd r1)
         = [(''JS Industries'', ''js-black-box''), (''Channel Islands'', ''ci-happy-everyday'')]"
proof -
  obtain r1 h1 where
    1: "rankCatalog_h (Some tie_catalog) (Fin 80) mellow_point intermediate sort_sponsored [] empty_heap
          = (r1, h1)"
    by (cases "rankCatalog_h (Some tie_catalog) (Fin 80) mellow_point intermediate sort_sponsored []
                 empty_heap")
  obtain r2 h2 where
    2: "rankCatalog_h (Some tie_catalog) (Fin 80) mellow_point intermediate sort_sponsored [] h1
          = (r2, h2)"
    by (cases "rankCatalog_h (Some tie_catalog) (Fin 80) mellow_point intermediate sort_sponsored [] h1")
  note d = ranking_deterministic [OF 1 2]
  have e: "r2 = r1"
    using d by (rule conjunct1)
  have p: "r1 = rankCatalog (Some tie_catalog) (Fin 80) mellow_point intermediate sort_sponsored []"
    using d by (simp only:)
  have a: "map (\<lambda>b. (board_id b, score b)) (fst r1)
         = [(''ci-high'', Fin (2136570995094323 / 17592186044416)),
            (''ci-happy-everyday'', fl 121.45), (''js-black-box'', Fin 127),
            (''js-monsta-2024'', Fin (481 / 4))]"
    unfolding p by (rule tie_all)
  have t: "map (\<lambda>t. (brand t, board_id (board t))) (snd r1)
         = [(''JS Industries'', ''js-black-box''), (''Channel Islands'', ''ci-happy-everyday'')]"
    unfolding p by (rule tie_top_picks)
  from conjI [OF 1 conjI [OF 2 conjI [OF e conjI [OF a t]]]] show ?thesis
    by - (rule exI, rule exI, rule exI, rule exI, assumption)
qed

section \<open>Properties of the CSV ingestion\<close>

lemma volume_row_board:
  "volume (row_board headers i cols) = or_else (cell headers cols ''volume'') (Fin 0) Number_of_string"
  by (simp add: row_board_def Let_def)

lemma recommendedWeight_row_board:
  "recommendedWeight (row_board headers i cols) =
     (or_else (cell headers cols ''recommendedWeightMin'') (Fin 0) Number_of_string,
      or_else (cell headers cols ''recommendedWeightMax'') (Fin 0) Number_of_string)"
  by (simp add: row_board_def Let_def)

lemma sponsored_row_board:
  "sponsored (row_board headers i cols) =
     Some (toLowerCase (or_else (cell headers cols ''sponsored'') [] id) \<in> set [''1'', ''true'', ''yes'', ''y''])"
  by (simp add: row_board_def Let_def)

lemma map_parse_rows:
  assumes "\<And>i cols. f (row_board headers i cols) = g cols"
  shows "map f (parse_rows headers i rows) =
         map g (List.map_filter (\<lambda>row. safeParseCSVRow row (length headers)) rows)"
  by (induction rows arbitrary: i) (simp_all add: assms map_filter_simps split: option.split)

lemma parseAirtableCSV_rows:
  assumes "filter (\<lambda>r. r \<noteq> []) (split_lines csv []) = header # rows"
  shows "parseAirtableCSV csv = parse_rows (map trim (split header (CHR '',''))) 1 rows"
  by (simp add: parseAirtableCSV_def assms)

text \<open>
  C5, as the code has it. For the rows that are not dropped, in their order: a numeric
  field is 0 when the header has no such column or the cell is empty, and otherwise
  \<open>Number\<close> of the cell, which is \<open>NaN\<close> for a cell that is not a numeric literal.
\<close>

theorem csv_numeric_fields:
  assumes rows: "filter (\<lambda>r. r \<noteq> []) (split_lines csv []) = header # rows"
    and headers: "headers = map trim (split header (CHR '',''))"
  shows "map volume (parseAirtableCSV csv) =
           map (\<lambda>cols. case cell headers cols ''volume'' of
                          None \<Rightarrow> Fin 0
                        | Some s \<Rightarrow> if s = [] then Fin 0 else Number_of_string s)
             (List.map_filter (\<lambda>row. safeParseCSVRow row (length headers)) rows)
       \<and> map recommendedWeight (parseAirtableCSV csv) =
           map (\<lambda>cols. (case cell headers cols ''recommendedWeightMin'' of
                           None \<Rightarrow> Fin 0
                         | Some s \<Rightarrow> if s = [] then Fin 0 else Number_of_string s,
                         case cell headers cols ''recommendedWeightMax'' of
                           None \<Rightarrow> Fin 0
                         | Some s \<Rightarrow> if s = [] then Fin 0 else Number_of_string s))
             (List.map_filter (\<lambda>row. safeParseCSVRow row (length headers)) rows)"
  unfolding parseAirtableCSV_rows [OF rows] headers [symmetric]
  by (intro conjI map_parse_rows)
     (simp_all add: volume_row_board recommendedWeight_row_board or_else_def)

text \<open>
  C7, as the code has it. For the rows that are not dropped, in their order: \<open>sponsored\<close>
  is true exactly when the lower-cased cell, not trimmed, is one of \<open>1\<close>, \<open>true\<close>, \<open>yes\<close>,
  \<open>y\<close>; a missing or empty cell gives false.
\<close>

theorem csv_sponsored_field:
  assumes rows: "filter (\<lambda>r. r \<noteq> []) (split_lines csv []) = header # rows"
    and headers: "headers = map trim (split header (CHR '',''))"
  shows "map sponsored (parseAirtableCSV csv) =
           map (\<lambda>cols. Some (toLowerCase (case cell headers cols ''sponsored'' of
                                             None \<Rightarrow> []
                                           | Some s \<Rightarrow> s)
                              \<in> set [''1'', ''true'', ''yes'', ''y'']))
             (List.map_filter (\<lambda>row. safeParseCSVRow row (length headers)) rows)"
  unfolding parseAirtableCSV_rows [OF rows] headers [symmetric]
  by (rule map_parse_rows) (simp add: sponsored_row_board or_else_def split: option.split)

lemma demo_rows:
  "filter (\<lambda>r. r \<noteq> []) (split_lines demo_csv []) =
     ''id,shaper,volume,sponsored'' # [''a1,Lost,abc, yes'', ''a2,Lost,,YES'', ''short,row'', ''a3,Pyzel,31.5,no'']"
  by code_simp

lemma demo_headers:
  "[''id'', ''shaper'', ''volume'', ''sponsored''] = map trim (split ''id,shaper,volume,sponsored'' (CHR '',''))"
  by code_simp

lemma demo_kept:
  "List.map_filter (\<lambda>row. safeParseCSVRow row (length [''id'', ''shaper'', ''volume'', ''sponsored'']))
     [''a1,Lost,abc, yes'', ''a2,Lost,,YES'', ''short,row'', ''a3,Pyzel,31.5,no'']
   = [[''a1'', ''Lost'', ''abc'', '' yes''], [''a2'', ''Lost'', [], ''YES''], [''a3'', ''Pyzel'', ''31.5'', ''no'']]"
  by code_simp

theorem csv_sponsored_field_witness:
  "filter (\<lambda>r. r \<noteq> []) (split_lines demo_csv []) =
     ''id,shaper,volume,sponsored'' # [''a1,Lost,abc, yes'', ''a2,Lost,,YES'', ''short,row'', ''a3,Pyzel,31.5,no'']
   \<and> [''id'', ''shaper'', ''volume'', ''sponsored''] = map trim (split ''id,shaper,volume,sponsored'' (CHR '',''))
   \<and> map sponsored (parseAirtableCSV demo_csv) = [Some False, Some True, Some False]"
proof -
  have "map sponsored (parseAirtableCSV demo_csv) = [Some False, Some True, Some False]"
    unfolding csv_sponsored_field [OF demo_rows demo_headers] demo_kept
    by code_simp
  with demo_rows demo_headers show ?thesis by blast
qed

theorem csv_numeric_fields_witness:
  "filter (\<lambda>r. r \<noteq> []) (split_lines demo_csv []) =
     ''id,shaper,volume,sponsored'' # [''a1,Lost,abc, yes'', ''a2,Lost,,YES'', ''short,row'', ''a3,Pyzel,31.5,no'']
   \<and> [''id'', ''shaper'', ''volume'', ''sponsored''] = map trim (split ''id,shaper,volume,sponsored'' (CHR '',''))
   \<and> map volume (parseAirtableCSV demo_csv) = [NaN, Fin 0, Fin 31.5]
   \<and> map recommendedWeight (parseAirtableCSV demo_csv) = [(Fin 0, Fin 0), (Fin 0, Fin 0), (Fin 0, Fin 0)]"
proof -
  have v: "map volume (parseAirtableCSV demo_csv) = [NaN, Fin 0, Fin 31.5]"
    unfolding csv_numeric_fields [OF demo_rows demo_headers, THEN conjunct1] demo_kept
    by code_simp
  have w: "map recommendedWeight (parseAirtableCSV demo_csv) = [(Fin 0, Fin 0), (Fin 0, Fin 0), (Fin 0, Fin 0)]"
    unfolding csv_numeric_fields [OF demo_rows demo_headers, THEN conjunct2] demo_kept
    by code_simp
  from demo_rows demo_headers v w show ?thesis by blast
qed

text \<open>
  C5 as worded fails: the first data row of the example has the cell \<open>abc\<close> under \<open>volume\<close>;
  its board has the volume \<open>NaN\<close>, where the specification's rule gives 0.
\<close>

theorem csv_numeric_counterexample:
  "map (\<lambda>b. (board_id b, volume b)) (parseAirtableCSV demo_csv)
     = [(''a1'', NaN), (''a2'', Fin 0), (''a3'', Fin 31.5)]
   \<and> spec_numeric (Some ''abc'') = Fin 0"
  by code_simp

text \<open>
  C7 as worded fails: the first data row of the example has the cell \<open> yes\<close>, with a space
  in front, under \<open>sponsored\<close>; its board is not sponsored, where the trimmed value is \<open>yes\<close>.
\<close>

theorem csv_sponsored_counterexample:
  "map (\<lambda>b. (board_id b, sponsored b)) (parseAirtableCSV demo_csv)
     = [(''a1'', Some False), (''a2'', Some True), (''a3'', Some False)]
   \<and> spec_sponsored '' yes'' = True"
  by code_simp

section \<open>Properties of the catalog loader\<close>

text \<open>
  C6, as the code has it. From the CSV source: when the fetch is rejected or the response
  is not \<open>ok\<close> the catalog is the fallback set and the warning names the source; when the
  response is \<open>ok\<close> the catalog is what the ingestion makes of the text, with no warning,
  and for an empty text that is the empty catalog. From the JSON source a text that does
  not decode takes the path of a failed fetch, and a decoded value is stored as it is,
  with no warning. Whatever the fetching and decoding throws is caught: the load then ends
  with the fallback set and the warning.
\<close>

theorem load_outcome:
  "load airtable fetch json False st =
     (case fetch AIRTABLE_CSV_URL of
        Response True status text \<Rightarrow>
          st\<lparr>st_boards := Boards (parseAirtableCSV text), st_isLoading := False, st_error := None\<rparr>
      | _ \<Rightarrow> st\<lparr>st_boards := Boards FALLBACK_BOARDS, st_isLoading := False,
                st_error := Some ''Using sample data (airtable fetch failed)''\<rparr>)
   \<and> (fetch AIRTABLE_CSV_URL = Response True code [] \<longrightarrow>
        load airtable fetch json False st
          = st\<lparr>st_boards := Boards [], st_isLoading := False, st_error := None\<rparr>)
   \<and> load github fetch json False st =
     (case fetch (normalizeGithubRaw GITHUB_JSON_URL) of
        Response True status text \<Rightarrow>
          (case json text of
             Some data \<Rightarrow> st\<lparr>st_boards := Decoded data, st_isLoading := False, st_error := None\<rparr>
           | None \<Rightarrow> st\<lparr>st_boards := Boards FALLBACK_BOARDS, st_isLoading := False,
                       st_error := Some ''Using sample data (github fetch failed)''\<rparr>)
      | _ \<Rightarrow> st\<lparr>st_boards := Boards FALLBACK_BOARDS, st_isLoading := False,
                st_error := Some ''Using sample data (github fetch failed)''\<rparr>)
   \<and> (fetch_data DATA_SOURCE fetch json = Inl e \<longrightarrow>
        load DATA_SOURCE fetch json False st
          = st\<lparr>st_boards := Boards FALLBACK_BOARDS, st_isLoading := False,
               st_error := Some (''Using sample data ('' @ DataSource_str DATA_SOURCE
                                 @ '' fetch failed)'')\<rparr>)"
proof (intro conjI impI)
  show "load airtable fetch json False st =
     (case fetch AIRTABLE_CSV_URL of
        Response True status text \<Rightarrow>
          st\<lparr>st_boards := Boards (parseAirtableCSV text), st_isLoading := False, st_error := None\<rparr>
      | _ \<Rightarrow> st\<lparr>st_boards := Boards FALLBACK_BOARDS, st_isLoading := False,
                st_error := Some ''Using sample data (airtable fetch failed)''\<rparr>)"
    by (simp add: load_def fetch_data_def Let_def split: FetchResult.split bool.split)
next
  assume "fetch AIRTABLE_CSV_URL = Response True code []"
  then show "load airtable fetch json False st
          = st\<lparr>st_boards := Boards [], st_isLoading := False, st_error := None\<rparr>"
    by (simp add: load_def fetch_data_def Let_def parseAirtableCSV_def)
next
  show "load github fetch json False st =
     (case fetch (normalizeGithubRaw GITHUB_JSON_URL) of
        Response True status text \<Rightarrow>
          (case json text of
             Some data \<Rightarrow> st\<lparr>st_boards := Decoded data, st_isLoading := False, st_error := None\<rparr>
           | None \<Rightarrow> st\<lparr>st_boards := Boards FALLBACK_BOARDS, st_isLoading := False,
                       st_error := Some ''Using sample data (github fetch failed)''\<rparr>)
      | _ \<Rightarrow> st\<lparr>st_boards := Boards FALLBACK_BOARDS, st_isLoading := False,
                st_error := Some ''Using sample data (github fetch failed)''\<rparr>)"
    by (simp add: load_def fetch_data_def Let_def split: FetchResult.split bool.split option.split)
next
  assume "fetch_data DATA_SOURCE fetch json = Inl e"
  then show "load DATA_SOURCE fetch json False st
          = st\<lparr>st_boards := Boards FALLBACK_BOARDS, st_isLoading := False,
               st_error := Some (''Using sample data ('' @ DataSource_str DATA_SOURCE
                                 @ '' fetch failed)'')\<rparr>"
    by (simp add: load_def Let_def)
qed

theorem load_outcome_witness:
  "fetch_empty_ok AIRTABLE_CSV_URL = Response True 200 []
   \<and> load airtable fetch_empty_ok json_rejects False initial_state
       = initial_state\<lparr>st_boards := Boards [], st_isLoading := False, st_error := None\<rparr>
   \<and> fetch_data airtable fetch_not_found json_rejects = Inl (StatusError ''Airtable 404'')
   \<and> load airtable fetch_not_found json_rejects False initial_state
       = initial_state\<lparr>st_boards := Boards FALLBACK_BOARDS, st_isLoading := False,
           st_error := Some ''Using sample data (airtable fetch failed)''\<rparr>
   \<and> load github fetch_null_ok json_null False initial_state
       = initial_state\<lparr>st_boards := Decoded JNull, st_isLoading := False, st_error := None\<rparr>"
proof -
  have e: "fetch_empty_ok AIRTABLE_CSV_URL = Response True 200 []"
    by (simp add: fetch_empty_ok_def)
  have n: "fetch_data airtable fetch_not_found json_rejects = Inl (StatusError ''Airtable 404'')"
    by code_simp
  have a: "load airtable fetch_empty_ok json_rejects False initial_state
       = initial_state\<lparr>st_boards := Boards [], st_isLoading := False, st_error := None\<rparr>"
    using load_outcome [of fetch_empty_ok json_rejects initial_state 200 airtable,
        THEN conjunct2, THEN conjunct1] e
    by (simp only:)
  have b: "load airtable fetch_not_found json_rejects False initial_state
       = initial_state\<lparr>st_boards := Boards FALLBACK_BOARDS, st_isLoading := False,
           st_error := Some ''Using sample data (airtable fetch failed)''\<rparr>"
    using load_outcome [of fetch_not_found json_rejects initial_state 200 airtable
        "StatusError ''Airtable 404''", THEN conjunct2, THEN conjunct2, THEN conjunct2] n
    by simp
  have c: "load github fetch_null_ok json_null False initial_state
       = initial_state\<lparr>st_boards := Decoded JNull, st_isLoading := False, st_error := None\<rparr>"
    using load_outcome [of fetch_null_ok json_null initial_state 200 github,
        THEN conjunct2, THEN conjunct2, THEN conjunct1]
    by (simp add: fetch_null_ok_def json_null_def)
  from e a n b c show ?thesis
    by (intro conjI)
qed

text \<open>
  C6 as worded fails: for a response that is \<open>ok\<close> with an empty text the catalog is
  empty, not the fallback set, and there is no warning.
\<close>

theorem load_counterexample:
  "st_boards (load airtable fetch_empty_ok json_rejects False initial_state) = Boards []
   \<and> st_boards (load airtable fetch_empty_ok json_rejects False initial_state) \<noteq> Boards FALLBACK_BOARDS
   \<and> st_error (load airtable fetch_empty_ok json_rejects False initial_state) = None"
  by (simp add: load_def fetch_data_def fetch_empty_ok_def parseAirtableCSV_def Let_def
      FALLBACK_BOARDS_def)

end
